theory Spec2Isabelle
  imports Complex_Main
begin

section \<open>The runtime the client is written against\<close>

text \<open>
  The executor of \<^verbatim>\<open>src/api/client.ts\<close> is written against the Fetch API and
  the JavaScript core library. The parts of them that it touches are modelled here:
  JSON values and property access on them, the conversion of a header value to a
  number, and the \<^verbatim>\<open>Headers\<close> container.
\<close>

subsection \<open>Numbers\<close>

text \<open>A JavaScript number: every double is NaN, an infinity or a rational.\<close>

datatype js_number = NaN | PosInfinity | NegInfinity | Num rat

text \<open>Truthiness of a number: everything but NaN and zero.\<close>

fun truthy :: "js_number \<Rightarrow> bool" where
  "truthy NaN = False"
| "truthy (Num q) = (q \<noteq> 0)"
| "truthy PosInfinity = True"
| "truthy NegInfinity = True"

subsection \<open>JSON values and property access\<close>

text \<open>
  A value produced by \<^verbatim>\<open>JSON.parse\<close>; the pairs of an object have distinct keys.
\<close>

datatype json =
    JNull
  | JBool bool
  | JNum js_number
  | JStr string
  | JArr "json list"
  | JObj "(string \<times> json) list"

text \<open>A JavaScript value as the client sees it: \<^verbatim>\<open>undefined\<close> or a JSON value.\<close>

datatype js_value = Undefined | Val json

text \<open>
  Reading property \<open>k\<close> of a value (\<^verbatim>\<open>v.k\<close>), for the two keys the client reads,
  \<^verbatim>\<open>error\<close> and \<^verbatim>\<open>message\<close>, neither of which is a property of a primitive, of an
  array or of \<^verbatim>\<open>Object.prototype\<close>. Reading a property of \<^verbatim>\<open>undefined\<close> or
  \<^verbatim>\<open>null\<close> throws a TypeError (\<open>None\<close>); a missing property reads as
  \<^verbatim>\<open>undefined\<close>.
\<close>

fun js_get :: "js_value \<Rightarrow> string \<Rightarrow> js_value option" where
  "js_get Undefined k = None"
| "js_get (Val JNull) k = None"
| "js_get (Val (JObj kvs)) k =
     (case map_of kvs k of None \<Rightarrow> Some Undefined | Some v \<Rightarrow> Some (Val v))"
| "js_get (Val v) k = Some Undefined"

subsection \<open>The functions of the runtime\<close>

text \<open>
  The functions of the runtime that the client calls on text: \<^verbatim>\<open>JSON.parse\<close>
  (\<open>None\<close> when it throws a SyntaxError) and the conversion of a string to a number
  that \<^verbatim>\<open>Number(s)\<close> performs. They are parameters of the model: every theorem
  below holds for whatever the runtime computes.
\<close>

record platform =
  JSON_parse :: "string \<Rightarrow> json option"
  StringToNumber :: "string \<Rightarrow> js_number"

text \<open>
  \<^verbatim>\<open>Number(res.headers.get("Retry-After"))\<close>: \<^verbatim>\<open>Headers.get\<close> gives \<^verbatim>\<open>null\<close> for
  an absent header, and \<^verbatim>\<open>Number(null)\<close> is \<open>0\<close>.
\<close>

fun Number :: "platform \<Rightarrow> string option \<Rightarrow> js_number" where
  "Number pf None = Num 0"
| "Number pf (Some s) = StringToNumber pf s"

subsection \<open>The Headers container\<close>

text \<open>
  A \<^verbatim>\<open>Headers\<close> object is a list of name/value pairs in insertion order; names are
  stored byte-lowercased. A character of a \<open>string\<close> is a byte, so every string
  here is a \<^verbatim>\<open>ByteString\<close>.
\<close>

type_synonym headers = "(string \<times> string) list"

definition lower_char :: "char \<Rightarrow> char" where
  "lower_char c =
     (let n = (of_char c :: nat) in if 65 \<le> n \<and> n \<le> 90 then char_of (n + 32) else c)"

definition byte_lowercase :: "string \<Rightarrow> string" where
  "byte_lowercase s = map lower_char s"

text \<open>
  A value is normalised before it is stored: leading and trailing HTTP whitespace
  (tab, line feed, carriage return, space) is stripped.
\<close>

definition HTTP_whitespace :: "char \<Rightarrow> bool" where
  "HTTP_whitespace c = ((of_char c :: nat) \<in> set [9, 10, 13, 32])"

definition normalize_value :: "string \<Rightarrow> string" where
  "normalize_value v = rev (dropWhile HTTP_whitespace (rev (dropWhile HTTP_whitespace v)))"

text \<open>
  A header name is a token: one or more letters, digits and the marks
  \<^verbatim>\<open>! # $ % & ' * + - . ^ _ ` | ~\<close>. A normalised header value holds neither NUL nor a
  line feed nor a carriage return.
\<close>

definition tchar :: "char \<Rightarrow> bool" where
  "tchar c =
     (let n = (of_char c :: nat)
      in (48 \<le> n \<and> n \<le> 57) \<or> (65 \<le> n \<and> n \<le> 90) \<or> (97 \<le> n \<and> n \<le> 122)
         \<or> n \<in> set [33, 35, 36, 37, 38, 39, 42, 43, 45, 46, 94, 95, 96, 124, 126])"

definition valid_name :: "string \<Rightarrow> bool" where
  "valid_name name = (name \<noteq> [] \<and> list_all tchar name)"

definition valid_value :: "string \<Rightarrow> bool" where
  "valid_value v = list_all (\<lambda>c. (of_char c :: nat) \<notin> set [0, 10, 13]) v"

text \<open>
  \<^verbatim>\<open>Headers.append\<close>: the value is normalised; an invalid name or value throws a
  TypeError (\<open>None\<close>); otherwise a further pair is put at the end, whatever is there
  already.
\<close>

definition Headers_append :: "headers \<Rightarrow> string \<Rightarrow> string \<Rightarrow> headers option" where
  "Headers_append hs name v =
     (let v' = normalize_value v
      in if valid_name name \<and> valid_value v'
         then Some (hs @ [(byte_lowercase name, v')])
         else None)"

text \<open>
  \<^verbatim>\<open>Headers.set\<close>: the value is normalised; an invalid name or value throws a
  TypeError (\<open>None\<close>); otherwise the first pair of that name takes the value and the
  other pairs of that name are removed, and a new name is appended.
\<close>

fun set_first :: "string \<Rightarrow> string \<Rightarrow> headers \<Rightarrow> headers" where
  "set_first k v [] = []"
| "set_first k v ((k', v') # hs) =
     (if k' = k then (k, v) # filter (\<lambda>(a, b). a \<noteq> k) hs
      else (k', v') # set_first k v hs)"

definition Headers_set :: "headers \<Rightarrow> string \<Rightarrow> string \<Rightarrow> headers option" where
  "Headers_set hs name v =
     (let v' = normalize_value v; k = byte_lowercase name
      in if valid_name name \<and> valid_value v'
         then Some (if k \<in> fst ` set hs then set_first k v' hs else hs @ [(k, v')])
         else None)"

text \<open>
  \<^verbatim>\<open>new Headers(init)\<close> for a plain object, and the loop of lines 165 to 167:
  \<^verbatim>\<open>append\<close> for every entry in turn, up to the first one that throws.
\<close>

fun fill :: "headers \<Rightarrow> (string \<times> string) list \<Rightarrow> headers option" where
  "fill hs [] = Some hs"
| "fill hs ((name, v) # es) =
     (case Headers_append hs name v of
        None \<Rightarrow> None
      | Some hs' \<Rightarrow> fill hs' es)"

text \<open>
  \<^verbatim>\<open>Headers.get\<close>: the values of all pairs of that name, in order, joined by a comma
  and a space; \<^verbatim>\<open>null\<close> (\<open>None\<close>) when there is none.
\<close>

fun join :: "string \<Rightarrow> string list \<Rightarrow> string" where
  "join sep [] = []"
| "join sep [x] = x"
| "join sep (x # y # ys) = x @ sep @ join sep (y # ys)"

definition Headers_get :: "headers \<Rightarrow> string \<Rightarrow> string option" where
  "Headers_get hs name =
     (case map snd (filter (\<lambda>(a, b). a = byte_lowercase name) hs) of
        [] \<Rightarrow> None
      | vs \<Rightarrow> Some (join '', '' vs))"

text \<open>
  The three forms of \<^verbatim>\<open>HeadersInit\<close>, and what \<^verbatim>\<open>Object.entries\<close> yields for each:
  the own properties of a plain object, in their order; index and element for an array of arrays,
  the element turned into a string when it is appended (its members joined by
  commas); nothing for a \<^verbatim>\<open>Headers\<close> instance, which has no own enumerable
  properties.
\<close>

datatype HeadersInit =
    HRecord "(string \<times> string) list"
  | HPairs "string list list"
  | HHeaders headers

function digits_of :: "nat \<Rightarrow> string" where
  "digits_of n =
     (if n < 10 then [char_of (48 + n)] else digits_of (n div 10) @ [char_of (48 + n mod 10)])"
  by pat_completeness auto
termination
  by (relation "measure id") auto

fun Object_entries :: "HeadersInit \<Rightarrow> (string \<times> string) list" where
  "Object_entries (HRecord kvs) = kvs"
| "Object_entries (HPairs ps) =
     map (\<lambda>(i, p). (digits_of i, join '','' p)) (zip [0..<length ps] ps)"
| "Object_entries (HHeaders hs) = []"

section \<open>The data of the client\<close>

subsection \<open>Token sources\<close>

text \<open>The settled state of an awaited promise.\<close>

datatype 'a promise = Resolved 'a | Rejected

text \<open>\<^verbatim>\<open>AccessResponse\<close> of the auth module.\<close>

record AccessResponse =
  access_token :: string
  token_type :: string
  expires_in :: nat

text \<open>
  An object handed to the client as auth provider, with the members that the
  repository's code names. A member that the object does not have is \<open>None\<close>;
  a member that it has is given by what a call of it returns at the moment:
  \<^verbatim>\<open>getToken()\<close> a string, the other three a promise. The client calls
  \<^verbatim>\<open>getToken\<close> and \<^verbatim>\<open>refreshToken\<close>; the interface \<^verbatim>\<open>IAuthProvider\<close> of the auth
  module declares \<^verbatim>\<open>getAccessToken\<close> and \<^verbatim>\<open>refresh\<close>.
\<close>

record provider =
  getToken :: "string option"
  refreshToken :: "string promise option"
  getAccessToken :: "string promise option"
  refresh :: "AccessResponse promise option"

text \<open>\<^verbatim>\<open>IAuthProvider | string\<close>, the type of the field \<^verbatim>\<open>authProvider\<close>.\<close>

datatype auth = StaticToken string | ProviderObject provider

text \<open>The interface \<^verbatim>\<open>IAuthProvider\<close> as the auth module declares it.\<close>

definition implements_IAuthProvider :: "provider \<Rightarrow> bool" where
  "implements_IAuthProvider p = (getAccessToken p \<noteq> None \<and> refresh p \<noteq> None)"

subsection \<open>Options, responses, errors\<close>

text \<open>
  \<^verbatim>\<open>SpotifyClientOpts\<close>. The client only tests the two numbers for truthiness and
  counts the first one down, so a field that is left \<^verbatim>\<open>undefined\<close> behaves as
  \<open>0\<close> (\<open>False\<close> for the flag) and is represented so.
\<close>

record SpotifyClientOpts =
  retryTimesOn5xx :: int
  retryDelayOn5xx :: int
  retryOnRateLimit :: bool

datatype ExpectedResponse = Json | Void

text \<open>
  What the client reads of a \<^verbatim>\<open>Response\<close>: the status, the \<^verbatim>\<open>Retry-After\<close> header
  as \<^verbatim>\<open>headers.get\<close> returns it, and the body: \<open>None\<close> when \<^verbatim>\<open>res.body\<close> is
  \<^verbatim>\<open>null\<close>, otherwise the text that the body stream delivers.
\<close>

record response =
  status :: nat
  retry_after :: "string option"
  body :: "string option"

text \<open>\<^verbatim>\<open>res.ok\<close>: the status is in the range 200 to 299.\<close>

definition ok :: "response \<Rightarrow> bool" where
  "ok res = (200 \<le> status res \<and> status res \<le> 299)"

text \<open>
  \<^verbatim>\<open>res.status.toString().startsWith("5")\<close>: the first decimal digit of the status.
\<close>

function leading_digit :: "nat \<Rightarrow> nat" where
  "leading_digit n = (if n < 10 then n else leading_digit (n div 10))"
  by pat_completeness auto
termination
  by (relation "measure id") auto

definition status_startsWith_5 :: "nat \<Rightarrow> bool" where
  "status_startsWith_5 n = (leading_digit n = 5)"

text \<open>
  Everything a call can be rejected with. \<open>SpotifyError\<close> carries the value passed
  to its constructor as message and the status; \<open>Error\<close> is the plain
  \<^verbatim>\<open>new Error("Body not found")\<close>; \<open>TypeError\<close> is the call of a member that the
  provider object does not have, or a header operation on an invalid name or
  value; \<open>SyntaxError\<close> is \<^verbatim>\<open>res.json()\<close> on a body that is not JSON; the last two
  are a rejection by the transport and by the provider.
\<close>

datatype error =
    SpotifyError js_value nat
  | Error string
  | TypeError
  | SyntaxError
  | TransportError
  | ProviderError

subsection \<open>The environment of one call\<close>

text \<open>
  One physical attempt as the environment answers it: the outcome of
  \<^verbatim>\<open>await fetch(...)\<close>, and the auth provider that another task installed with
  \<^verbatim>\<open>setAuthProvider\<close> while the request was in flight, if any (a change of the
  state of the provider object itself is such a replacement too). After a sleep
  or a refresh the client does not read the field before the next request has
  been answered, so a replacement at those points is the same as one during
  the next request.
\<close>

datatype fetch_outcome = Responds response | Rejects

datatype exchange = Exchange (outcome: fetch_outcome) (swapped: "auth option")

text \<open>
  The effects of a call, in the order in which they happen. A request is
  recorded with the header list it was sent with and with its outcome; the
  sleep after a 429 with the number of seconds (the code passes a thousand
  times that to \<^verbatim>\<open>setTimeout\<close>), the sleep before a retry on a server error with
  the milliseconds; the three body operations act on the response of the latest
  request.
\<close>

datatype effect =
    Call_getToken
  | Call_refreshToken "string promise"
  | Fetched headers fetch_outcome
  | Sleep_RetryAfter js_number
  | Sleep_5xx int
  | Read_text
  | Read_json
  | Cancel_body

section \<open>The executor\<close>

text \<open>
  The variables that the closure \<^verbatim>\<open>call\<close> of \<^verbatim>\<open>SpotifyClient.fetch\<close> reads and
  writes: its locals \<^verbatim>\<open>isTriedRefreshToken\<close>, \<^verbatim>\<open>retryTimesOn5xx\<close> (here
  \<open>retriesLeft\<close>), \<^verbatim>\<open>accessToken\<close> and \<^verbatim>\<open>_headers\<close> (here \<open>req_headers\<close>), the field
  \<^verbatim>\<open>this.authProvider\<close>, and the effects so far.
\<close>

record closure =
  isTriedRefreshToken :: bool
  retriesLeft :: int
  accessToken :: string
  authProvider :: auth
  req_headers :: headers
  trace :: "effect list"

text \<open>
  The message of a terminal failure (lines 216 to 227), with the effect of
  reading the body.
\<close>

definition envelope_message :: "json \<Rightarrow> js_value option" where
  "envelope_message v =
     (case js_get (Val v) ''error'' of
        None \<Rightarrow> None
      | Some e \<Rightarrow> js_get e ''message'')"

definition error_message :: "platform \<Rightarrow> response \<Rightarrow> js_value \<times> effect list" where
  "error_message pf res =
     (case body res of
        None \<Rightarrow> (Val (JStr ''null''), [])
      | Some text \<Rightarrow>
          (case JSON_parse pf text of
             None \<Rightarrow> (Val (JStr text), [Read_text])
           | Some v \<Rightarrow>
               (case envelope_message v of
                  None \<Rightarrow> (Val (JStr text), [Read_text])
                | Some m \<Rightarrow> (m, [Read_text]))))"

text \<open>
  Lines 208 to 210: the sleep before a retry on a server error, made only for a
  delay that is truthy.
\<close>

definition backoff :: "SpotifyClientOpts \<Rightarrow> effect list" where
  "backoff opts = (if retryDelayOn5xx opts \<noteq> 0 then [Sleep_5xx (retryDelayOn5xx opts)] else [])"

text \<open>
  Lines 197 to 232: the rate-limit wait, the retry on a server error, and the
  terminal failure. The result \<open>None\<close> stands for \<^verbatim>\<open>return call()\<close>.
\<close>

definition retry_or_fail ::
  "platform \<Rightarrow> SpotifyClientOpts \<Rightarrow> closure \<Rightarrow> response \<Rightarrow> (error + response) option \<times> closure"
where
  "retry_or_fail pf opts st res =
     (if status res = 429 \<and> retryOnRateLimit opts \<and> truthy (Number pf (retry_after res))
      then (None, st\<lparr>trace := trace st @ [Sleep_RetryAfter (Number pf (retry_after res))]\<rparr>)
      else if status_startsWith_5 (status res) \<and> retriesLeft st \<noteq> 0
      then (None, st\<lparr>retriesLeft := retriesLeft st - 1, trace := trace st @ backoff opts\<rparr>)
      else
        (case error_message pf res of
           (m, rd) \<Rightarrow> (Some (Inl (SpotifyError m (status res))), st\<lparr>trace := trace st @ rd\<rparr>)))"

text \<open>
  Lines 192 to 194: the refresh. Calling a member that the object does not have
  throws; a rejected promise rejects the call.
\<close>

definition refresh_and_retry :: "closure \<Rightarrow> provider \<Rightarrow> (error + response) option \<times> closure" where
  "refresh_and_retry st p =
     (case refreshToken p of
        None \<Rightarrow> (Some (Inl TypeError), st)
      | Some Rejected \<Rightarrow>
          (Some (Inl ProviderError), st\<lparr>trace := trace st @ [Call_refreshToken Rejected]\<rparr>)
      | Some (Resolved t) \<Rightarrow>
          (None,
           st\<lparr>accessToken := t, isTriedRefreshToken := True,
              trace := trace st @ [Call_refreshToken (Resolved t)]\<rparr>))"

text \<open>
  Line 178: \<^verbatim>\<open>_headers.set("Authorization", "Bearer " + accessToken)\<close>, the header
  list that the next request is sent with, or \<open>None\<close> when \<^verbatim>\<open>set\<close> throws.
\<close>

definition with_Authorization :: "closure \<Rightarrow> headers option" where
  "with_Authorization st =
     Headers_set (req_headers st) ''Authorization'' (''Bearer '' @ accessToken st)"

text \<open>
  Lines 180 to 184: the request is sent with the header list \<open>hs\<close> and answered;
  meanwhile the field \<^verbatim>\<open>authProvider\<close> may have been replaced.
\<close>

definition after_request :: "closure \<Rightarrow> headers \<Rightarrow> exchange \<Rightarrow> closure" where
  "after_request st hs x =
     st\<lparr>req_headers := hs,
        authProvider := (case swapped x of None \<Rightarrow> authProvider st | Some a \<Rightarrow> a),
        trace := trace st @ [Fetched hs (outcome x)]\<rparr>"

text \<open>
  One run of the body of \<^verbatim>\<open>call\<close> (lines 178 to 232) against one answer of the
  environment. When line 178 throws, no request is sent and the answer is not
  used. \<^verbatim>\<open>typeof this.authProvider === "object"\<close> is the case distinction on the
  field, read after the request has been answered.
\<close>

definition attempt ::
  "platform \<Rightarrow> SpotifyClientOpts \<Rightarrow> closure \<Rightarrow> exchange \<Rightarrow> (error + response) option \<times> closure"
where
  "attempt pf opts st x =
     (case with_Authorization st of
        None \<Rightarrow> (Some (Inl TypeError), st)
      | Some hs \<Rightarrow>
          (let st1 = after_request st hs x
           in case outcome x of
                Rejects \<Rightarrow> (Some (Inl TransportError), st1)
              | Responds res \<Rightarrow>
                  if ok res then (Some (Inr res), st1)
                  else
                    (case authProvider st1 of
                       ProviderObject p \<Rightarrow>
                         if status res = 401 \<and> \<not> isTriedRefreshToken st1
                         then refresh_and_retry st1 p
                         else retry_or_fail pf opts st1 res
                     | StaticToken _ \<Rightarrow> retry_or_fail pf opts st1 res)))"

text \<open>
  The closure \<^verbatim>\<open>call\<close>, run against the answers of the environment in order. The
  result \<open>None\<close> means that every answer led to a further request: the call is
  still waiting for the transport.
\<close>

fun call ::
  "platform \<Rightarrow> SpotifyClientOpts \<Rightarrow> closure \<Rightarrow> exchange list \<Rightarrow> (error + response) option \<times> closure"
where
  "call pf opts st [] = (None, st)"
| "call pf opts st (x # xs) =
     (case attempt pf opts st x of
        (Some r, st') \<Rightarrow> (Some r, st')
      | (None, st') \<Rightarrow> call pf opts st' xs)"

text \<open>
  Lines 113 to 116 and 163 to 168: a \<^verbatim>\<open>Headers\<close> object made of the base headers,
  then \<^verbatim>\<open>append\<close> for every entry of the caller's headers; \<open>None\<close> when an
  \<^verbatim>\<open>append\<close> throws.
\<close>

definition BASE_HEADERS :: "(string \<times> string) list" where
  "BASE_HEADERS = [(''Content-Type'', ''application/json''), (''Accept'', ''application/json'')]"

definition merged_headers :: "HeadersInit option \<Rightarrow> headers option" where
  "merged_headers h =
     (case fill [] BASE_HEADERS of
        None \<Rightarrow> None
      | Some hs \<Rightarrow>
          (case h of
             None \<Rightarrow> Some hs
           | Some hi \<Rightarrow> fill hs (Object_entries hi)))"

text \<open>
  Lines 173 to 175: the token the call starts with, and the effect of getting it.
\<close>

definition resolve_accessToken :: "auth \<Rightarrow> error + string \<times> effect list" where
  "resolve_accessToken a =
     (case a of
        StaticToken t \<Rightarrow> Inr (t, [])
      | ProviderObject p \<Rightarrow>
          (case getToken p of
             None \<Rightarrow> Inl TypeError
           | Some t \<Rightarrow> Inr (t, [Call_getToken])))"

text \<open>
  Lines 163 to 175: the variables of the closure when \<^verbatim>\<open>call\<close> is first run, for the
  merged headers \<open>hs\<close>, the token \<open>t\<close> and the effects \<open>tr\<close> of resolving it.
\<close>

definition initial_closure ::
  "SpotifyClientOpts \<Rightarrow> auth \<Rightarrow> headers \<Rightarrow> string \<Rightarrow> effect list \<Rightarrow> closure"
where
  "initial_closure opts a hs t tr =
     \<lparr>isTriedRefreshToken = False, retriesLeft = retryTimesOn5xx opts, accessToken = t,
      authProvider = a, req_headers = hs, trace = tr\<rparr>"

text \<open>Lines 237 to 242: what becomes of the response that \<^verbatim>\<open>call\<close> returned.\<close>

definition deliver ::
  "platform \<Rightarrow> ExpectedResponse \<Rightarrow> response \<Rightarrow> (error + json option) \<times> effect list"
where
  "deliver pf responseType res =
     (case responseType of
        Json \<Rightarrow>
          (case body res of
             None \<Rightarrow> (Inl (Error ''Body not found''), [])
           | Some text \<Rightarrow>
               (case JSON_parse pf text of
                  None \<Rightarrow> (Inl SyntaxError, [Read_json])
                | Some v \<Rightarrow> (Inr (Some v), [Read_json])))
      | Void \<Rightarrow>
          (case body res of
             None \<Rightarrow> (Inr None, [])
           | Some text \<Rightarrow> (Inr None, [Cancel_body])))"

text \<open>
  Lines 235 to 243: \<^verbatim>\<open>call\<close> has thrown, has returned a response, or is still
  waiting.
\<close>

definition settle ::
  "platform \<Rightarrow> ExpectedResponse \<Rightarrow> (error + response) option \<times> closure
     \<Rightarrow> (error + json option) option \<times> effect list"
where
  "settle pf responseType c =
     (case c of
        (None, st) \<Rightarrow> (None, trace st)
      | (Some (Inl e), st) \<Rightarrow> (Some (Inl e), trace st)
      | (Some (Inr res), st) \<Rightarrow>
          (case deliver pf responseType res of
             (r, tr') \<Rightarrow> (Some r, trace st @ tr')))"

text \<open>
  \<^verbatim>\<open>SpotifyClient.fetch\<close>, for a client with options \<open>opts\<close> whose field
  \<^verbatim>\<open>authProvider\<close> holds \<open>a\<close> when the call starts, against the answers \<open>script\<close>
  of the environment. The result is the settled promise (\<open>Inr None\<close> for
  \<^verbatim>\<open>void\<close>), or \<open>None\<close> while the call waits for the transport, together with the
  effects. The URL, the method and the request body are passed to the transport
  as they are and are left out.
\<close>

definition fetch ::
  "platform \<Rightarrow> SpotifyClientOpts \<Rightarrow> auth \<Rightarrow> ExpectedResponse \<Rightarrow> HeadersInit option \<Rightarrow> exchange list
     \<Rightarrow> (error + json option) option \<times> effect list"
where
  "fetch pf opts a responseType h script =
     (case merged_headers h of
        None \<Rightarrow> (Some (Inl TypeError), [])
      | Some hs \<Rightarrow>
          (case resolve_accessToken a of
             Inl e \<Rightarrow> (Some (Inl e), [])
           | Inr (t, tr) \<Rightarrow>
               settle pf responseType (call pf opts (initial_closure opts a hs t tr) script)))"

section \<open>Observations on the effects of a call\<close>

text \<open>The header lists of the requests of a trace, in order.\<close>

fun requests :: "effect list \<Rightarrow> headers list" where
  "requests [] = []"
| "requests (Fetched hs out # es) = hs # requests es"
| "requests (e # es) = requests es"

text \<open>The number of physical attempts.\<close>

definition attempts :: "effect list \<Rightarrow> nat" where
  "attempts es = length (requests es)"

text \<open>The sleeps before retries on a server error, with their milliseconds, in order.\<close>

fun sleeps_5xx :: "effect list \<Rightarrow> int list" where
  "sleeps_5xx [] = []"
| "sleeps_5xx (Sleep_5xx ms # es) = ms # sleeps_5xx es"
| "sleeps_5xx (e # es) = sleeps_5xx es"

text \<open>The number of calls of \<^verbatim>\<open>refreshToken\<close>.\<close>

fun refresh_calls :: "effect list \<Rightarrow> nat" where
  "refresh_calls [] = 0"
| "refresh_calls (Call_refreshToken r # es) = Suc (refresh_calls es)"
| "refresh_calls (e # es) = refresh_calls es"

text \<open>
  The bearer discipline of a trace that starts with the token \<open>t\<close> in hand: every
  request carries as its Authorization header \<^verbatim>\<open>Bearer\<close>, a space and the token in
  hand, normalised as the \<^verbatim>\<open>Headers\<close> object stores it; a refresh that resolves
  puts its token in hand; and the token source is not asked again.
\<close>

fun bearer_follows :: "string \<Rightarrow> effect list \<Rightarrow> bool" where
  "bearer_follows t [] = True"
| "bearer_follows t (Fetched hs out # es) =
     (Headers_get hs ''Authorization'' = Some (normalize_value (''Bearer '' @ t))
      \<and> bearer_follows t es)"
| "bearer_follows t (Call_refreshToken (Resolved t') # es) = bearer_follows t' es"
| "bearer_follows t (Call_getToken # es) = False"
| "bearer_follows t (e # es) = bearer_follows t es"

text \<open>
  Whether the body of the latest response is read or cancelled before the next
  request, and the number of responses with a body for which it is not.
\<close>

fun released :: "effect list \<Rightarrow> bool" where
  "released [] = False"
| "released (Fetched hs out # es) = False"
| "released (Read_text # es) = True"
| "released (Read_json # es) = True"
| "released (Cancel_body # es) = True"
| "released (e # es) = released es"

fun open_bodies :: "effect list \<Rightarrow> nat" where
  "open_bodies [] = 0"
| "open_bodies (Fetched hs (Responds res) # es) =
     (if body res \<noteq> None \<and> \<not> released es then 1 else 0) + open_bodies es"
| "open_bodies (e # es) = open_bodies es"

text \<open>An answer of the transport with a status from 500 to 599.\<close>

definition answers_5xx :: "exchange \<Rightarrow> bool" where
  "answers_5xx x =
     (case outcome x of
        Responds res \<Rightarrow> 500 \<le> status res \<and> status res \<le> 599
      | Rejects \<Rightarrow> False)"

text \<open>The token in hand after a trace that starts with \<open>t\<close> in hand.\<close>

fun token_after :: "string \<Rightarrow> effect list \<Rightarrow> string" where
  "token_after t [] = t"
| "token_after t (Call_refreshToken (Resolved t') # es) = token_after t' es"
| "token_after t (e # es) = token_after t es"

text \<open>The number of refreshes that a call may still make.\<close>

definition refresh_budget :: "closure \<Rightarrow> nat" where
  "refresh_budget st = (if isTriedRefreshToken st then 0 else 1)"

section \<open>Concrete inputs\<close>

text \<open>
  A runtime for evaluating the model on concrete inputs. It agrees with
  \<^verbatim>\<open>JSON.parse\<close> and \<^verbatim>\<open>Number\<close> on the texts that occur in the examples below,
  and is used on those only.
\<close>

definition example_platform :: platform where
  "example_platform =
     \<lparr>JSON_parse = (\<lambda>text.
        if text = ''{\"error\":{\"message\":\"Not found\",\"status\":404}}''
        then Some (JObj [(''error'', JObj [(''message'', JStr ''Not found''), (''status'', JNum (Num 404))])])
        else if text = ''{\"error\":\"invalid_client\"}''
        then Some (JObj [(''error'', JStr ''invalid_client'')])
        else if text = ''{\"id\":7}''
        then Some (JObj [(''id'', JNum (Num 7))])
        else None),
      StringToNumber = (\<lambda>s. if s = ''2'' then Num 2 else if s = ''0'' then Num 0 else NaN)\<rparr>"

text \<open>An answer of the transport with no replacement of the auth provider.\<close>

definition answer :: "nat \<Rightarrow> string option \<Rightarrow> string option \<Rightarrow> exchange" where
  "answer code ra b = Exchange (Responds \<lparr>status = code, retry_after = ra, body = b\<rparr>) None"

text \<open>
  Two provider objects with the members that the client calls, and the options
  without any retry.
\<close>

definition old_provider :: provider where
  "old_provider =
     \<lparr>getToken = Some ''old'', refreshToken = Some (Resolved ''fresh''),
      getAccessToken = None, refresh = None\<rparr>"

definition new_provider :: provider where
  "new_provider =
     \<lparr>getToken = Some ''new'', refreshToken = Some (Resolved ''newer''),
      getAccessToken = None, refresh = None\<rparr>"

definition no_retries :: SpotifyClientOpts where
  "no_retries = \<lparr>retryTimesOn5xx = 0, retryDelayOn5xx = 0, retryOnRateLimit = False\<rparr>"

text \<open>
  An object that implements \<^verbatim>\<open>IAuthProvider\<close> as the auth module declares it, and
  has no other members.
\<close>

definition auth_module_provider :: provider where
  "auth_module_provider =
     \<lparr>getToken = None, refreshToken = None,
      getAccessToken = Some (Resolved ''token''),
      refresh = Some (Resolved \<lparr>access_token = ''token'', token_type = ''Bearer'', expires_in = 3600\<rparr>)\<rparr>"

section \<open>Properties of the runtime and of one attempt\<close>

subsection \<open>Headers\<close>

lemma set_first_idem: "set_first k v (set_first k v hs) = set_first k v hs"
  by (induction hs) auto

lemma set_first_fresh: "k \<notin> fst ` set hs \<Longrightarrow> set_first k v (hs @ [(k, v)]) = hs @ [(k, v)]"
  by (induction hs) auto

lemma set_first_names: "k \<in> fst ` set hs \<Longrightarrow> k \<in> fst ` set (set_first k v hs)"
  by (induction hs) force+

lemma Headers_set_Some:
  assumes "Headers_set hs name v = Some H"
  shows "valid_name name" and "valid_value (normalize_value v)"
    and "H = (if byte_lowercase name \<in> fst ` set hs
              then set_first (byte_lowercase name) (normalize_value v) hs
              else hs @ [(byte_lowercase name, normalize_value v)])"
proof -
  have v: "valid_name name \<and> valid_value (normalize_value v)"
  proof (rule ccontr)
    assume "\<not> ?thesis"
    then have "Headers_set hs name v = None"
      by (simp add: Headers_set_def Let_def)
    with assms show False by simp
  qed
  then show "valid_name name" and "valid_value (normalize_value v)"
    by simp_all
  from v have "Headers_set hs name v =
      Some (if byte_lowercase name \<in> fst ` set hs
              then set_first (byte_lowercase name) (normalize_value v) hs
              else hs @ [(byte_lowercase name, normalize_value v)])"
    by (simp add: Headers_set_def Let_def)
  with assms show "H = (if byte_lowercase name \<in> fst ` set hs
              then set_first (byte_lowercase name) (normalize_value v) hs
              else hs @ [(byte_lowercase name, normalize_value v)])"
    by simp
qed

lemma Headers_set_valid:
  assumes "valid_name name" and "valid_value (normalize_value v)"
  shows "Headers_set hs name v =
      Some (if byte_lowercase name \<in> fst ` set hs
              then set_first (byte_lowercase name) (normalize_value v) hs
              else hs @ [(byte_lowercase name, normalize_value v)])"
  using assms by (simp add: Headers_set_def Let_def)

lemma Headers_set_idem:
  assumes "Headers_set hs name v = Some H"
  shows "Headers_set H name v = Some H"
proof -
  let ?k = "byte_lowercase name" and ?v = "normalize_value v"
  note s = Headers_set_Some [OF assms]
  show ?thesis
  proof (cases "?k \<in> fst ` set hs")
    case True
    then have H: "H = set_first ?k ?v hs"
      using s(3) by simp
    have "?k \<in> fst ` set H"
      unfolding H using True by (rule set_first_names)
    then show ?thesis
      by (simp add: Headers_set_valid [OF s(1,2)] H set_first_idem)
  next
    case False
    then have H: "H = hs @ [(?k, ?v)]"
      using s(3) by simp
    have "?k \<in> fst ` set H"
      unfolding H by simp
    then show ?thesis
      using False by (simp add: Headers_set_valid [OF s(1,2)] H set_first_fresh)
  qed
qed

lemma filter_set_first:
  "k \<in> fst ` set hs \<Longrightarrow> map snd (filter (\<lambda>(a, b). a = k) (set_first k v hs)) = [v]"
proof (induction hs)
  case Nil
  then show ?case by simp
next
  case (Cons p hs)
  obtain k' v' where p: "p = (k', v')" by (cases p)
  show ?case
  proof (cases "k' = k")
    case True
    with p show ?thesis by (auto simp: filter_empty_conv)
  next
    case False
    with Cons p show ?thesis by auto
  qed
qed

lemma filter_fresh: "k \<notin> fst ` set hs \<Longrightarrow> filter (\<lambda>(a, b). a = k) hs = []"
  by (induction hs) auto

lemma Headers_get_set:
  assumes "Headers_set hs name v = Some H"
  shows "Headers_get H name = Some (normalize_value v)"
proof -
  let ?k = "byte_lowercase name" and ?v = "normalize_value v"
  note s = Headers_set_Some [OF assms]
  show ?thesis
  proof (cases "?k \<in> fst ` set hs")
    case True
    then have H: "H = set_first ?k ?v hs"
      using s(3) by simp
    show ?thesis
      by (simp add: Headers_get_def H filter_set_first [OF True])
  next
    case False
    then have H: "H = hs @ [(?k, ?v)]"
      using s(3) by simp
    show ?thesis
      by (simp add: Headers_get_def H filter_fresh [OF False])
  qed
qed

subsection \<open>Status classes\<close>

declare leading_digit.simps [simp del]

lemma leading_digit_small: "n < 10 \<Longrightarrow> leading_digit n = n"
  by (simp add: leading_digit.simps [of n])

lemma leading_digit_step: "10 \<le> n \<Longrightarrow> leading_digit n = leading_digit (n div 10)"
  by (simp add: leading_digit.simps [of n])

lemma startsWith_5_5xx: "500 \<le> n \<Longrightarrow> n \<le> 599 \<Longrightarrow> status_startsWith_5 n"
  by (simp add: status_startsWith_5_def leading_digit_step leading_digit_small)

lemma startsWith_5_4xx: "400 \<le> n \<Longrightarrow> n \<le> 499 \<Longrightarrow> \<not> status_startsWith_5 n"
  by (simp add: status_startsWith_5_def leading_digit_step leading_digit_small)

lemma not_ok_5xx: "500 \<le> status res \<Longrightarrow> \<not> ok res"
  by (simp add: ok_def)

subsection \<open>Traces\<close>

lemma requests_append: "requests (es @ fs) = requests es @ requests fs"
  by (induction es rule: requests.induct) simp_all

lemma attempts_append: "attempts (es @ fs) = attempts es + attempts fs"
  by (simp add: attempts_def requests_append)

lemma refresh_calls_append: "refresh_calls (es @ fs) = refresh_calls es + refresh_calls fs"
  by (induction es rule: refresh_calls.induct) simp_all

lemma requests_error_message: "requests (snd (error_message pf res)) = []"
  by (simp add: error_message_def split: option.splits)

lemma refresh_calls_error_message: "refresh_calls (snd (error_message pf res)) = 0"
  by (simp add: error_message_def split: option.splits)

lemma requests_backoff: "requests (backoff opts) = []"
  by (simp add: backoff_def)

lemma refresh_calls_backoff: "refresh_calls (backoff opts) = 0"
  by (simp add: backoff_def)

lemma requests_deliver: "requests (snd (deliver pf rt res)) = []"
  by (simp add: deliver_def split: ExpectedResponse.splits option.splits)

lemma refresh_calls_deliver: "refresh_calls (snd (deliver pf rt res)) = 0"
  by (simp add: deliver_def split: ExpectedResponse.splits option.splits)

subsection \<open>One attempt\<close>

lemma with_Authorization_upd:
  "with_Authorization (st\<lparr>trace := tr\<rparr>) = with_Authorization st"
  "with_Authorization (st\<lparr>retriesLeft := k\<rparr>) = with_Authorization st"
  "with_Authorization (st\<lparr>authProvider := a\<rparr>) = with_Authorization st"
  "with_Authorization (st\<lparr>isTriedRefreshToken := b\<rparr>) = with_Authorization st"
  by (simp_all add: with_Authorization_def)

lemma with_Authorization_again:
  "with_Authorization st = Some H \<Longrightarrow> with_Authorization (st\<lparr>req_headers := H\<rparr>) = Some H"
  by (simp add: with_Authorization_def Headers_set_idem)

lemma after_request_simps:
  "isTriedRefreshToken (after_request st H x) = isTriedRefreshToken st"
  "retriesLeft (after_request st H x) = retriesLeft st"
  "accessToken (after_request st H x) = accessToken st"
  "req_headers (after_request st H x) = H"
  "trace (after_request st H x) = trace st @ [Fetched H (outcome x)]"
  by (simp_all add: after_request_def)

lemma with_Authorization_after:
  "with_Authorization st = Some H \<Longrightarrow> with_Authorization (after_request st H x) = Some H"
  by (simp add: after_request_def with_Authorization_def Headers_set_idem)

lemma attempt_thrown:
  "with_Authorization st = None \<Longrightarrow> attempt pf opts st x = (Some (Inl TypeError), st)"
  by (simp add: attempt_def)

lemma retry_or_fail_5xx:
  assumes "500 \<le> status res" "status res \<le> 599" "retriesLeft st \<noteq> 0"
  shows "retry_or_fail pf opts st res =
           (None, st\<lparr>retriesLeft := retriesLeft st - 1, trace := trace st @ backoff opts\<rparr>)"
  using assms by (simp add: retry_or_fail_def startsWith_5_5xx)

lemma retry_or_fail_terminal:
  assumes "\<not> (status res = 429 \<and> retryOnRateLimit opts \<and> truthy (Number pf (retry_after res)))"
    and "\<not> (status_startsWith_5 (status res) \<and> retriesLeft st \<noteq> 0)"
  shows "retry_or_fail pf opts st res =
           (Some (Inl (SpotifyError (fst (error_message pf res)) (status res))),
            st\<lparr>trace := trace st @ snd (error_message pf res)\<rparr>)"
  using assms by (auto simp add: retry_or_fail_def split: prod.splits)

lemma attempt_not_401:
  assumes "with_Authorization st = Some H"
    and "outcome x = Responds res" "\<not> ok res" "status res \<noteq> 401"
  shows "attempt pf opts st x = retry_or_fail pf opts (after_request st H x) res"
  using assms by (simp add: attempt_def Let_def split: auth.splits)

lemma attempt_ok:
  assumes "with_Authorization st = Some H" and "outcome x = Responds res" "ok res"
  shows "attempt pf opts st x = (Some (Inr res), after_request st H x)"
  using assms by (simp add: attempt_def Let_def)

lemma attempt_5xx:
  assumes "with_Authorization st = Some H"
    and "outcome x = Responds res" "500 \<le> status res" "status res \<le> 599"
  shows "attempt pf opts st x =
           (if retriesLeft st \<noteq> 0
            then (None, (after_request st H x)\<lparr>retriesLeft := retriesLeft st - 1,
                          trace := trace (after_request st H x) @ backoff opts\<rparr>)
            else (Some (Inl (SpotifyError (fst (error_message pf res)) (status res))),
                  (after_request st H x)
                    \<lparr>trace := trace (after_request st H x) @ snd (error_message pf res)\<rparr>))"
  using assms(2-4)
  by (simp add: attempt_not_401 [OF assms(1)] not_ok_5xx retry_or_fail_5xx retry_or_fail_terminal
      after_request_simps)

subsection \<open>Server errors\<close>

lemma call_5xx:
  assumes "with_Authorization st = Some H"
    and "retriesLeft st = int n" "n < length xs" "\<forall>x\<in>set xs. answers_5xx x"
    and "outcome (xs ! n) = Responds res"
  shows "fst (call pf opts st xs) = Some (Inl (SpotifyError (fst (error_message pf res)) (status res)))
       \<and> trace (snd (call pf opts st xs)) =
           trace st
           @ concat (map (\<lambda>x. Fetched H (outcome x) # backoff opts) (take n xs))
           @ [Fetched H (Responds res)] @ snd (error_message pf res)"
  using assms
proof (induction n arbitrary: st xs)
  case 0
  then obtain x xs' where xs: "xs = x # xs'" by (cases xs) auto
  from 0 xs have ox: "outcome x = Responds res" by simp
  from 0 xs ox have r: "500 \<le> status res" "status res \<le> 599"
    by (simp_all add: answers_5xx_def)
  show ?case
    using 0 xs ox by (simp add: attempt_5xx [OF "0.prems"(1) ox r] after_request_simps)
next
  case (Suc n)
  then obtain x xs' where xs: "xs = x # xs'" by (cases xs) auto
  from Suc.prems xs obtain r0 where ox: "outcome x = Responds r0"
    and r: "500 \<le> status r0" "status r0 \<le> 599"
    by (auto simp: answers_5xx_def split: fetch_outcome.splits)
  let ?st' = "(after_request st H x)\<lparr>retriesLeft := retriesLeft st - 1,
                          trace := trace (after_request st H x) @ backoff opts\<rparr>"
  have step: "call pf opts st (x # xs') = call pf opts ?st' xs'"
    using Suc.prems by (simp add: attempt_5xx [OF Suc.prems(1) ox r])
  have sent: "with_Authorization ?st' = Some H"
    by (simp add: with_Authorization_upd with_Authorization_after [OF Suc.prems(1)])
  have "fst (call pf opts ?st' xs') = Some (Inl (SpotifyError (fst (error_message pf res)) (status res)))
       \<and> trace (snd (call pf opts ?st' xs')) =
           trace ?st'
           @ concat (map (\<lambda>x. Fetched H (outcome x) # backoff opts) (take n xs'))
           @ [Fetched H (Responds res)] @ snd (error_message pf res)"
    using Suc.prems xs by (intro Suc.IH [OF sent]) simp_all
  then show ?case
    unfolding xs step by (simp add: after_request_simps)
qed

lemma requests_retries:
  "requests (concat (map (\<lambda>x. Fetched hs (outcome x) # backoff opts) xs)) = replicate (length xs) hs"
  by (induction xs) (simp_all add: requests_append requests_backoff)

lemma initial_closure_simps:
  "isTriedRefreshToken (initial_closure opts a hs t tr) = False"
  "retriesLeft (initial_closure opts a hs t tr) = retryTimesOn5xx opts"
  "accessToken (initial_closure opts a hs t tr) = t"
  "authProvider (initial_closure opts a hs t tr) = a"
  "req_headers (initial_closure opts a hs t tr) = hs"
  "trace (initial_closure opts a hs t tr) = tr"
  "with_Authorization (initial_closure opts a hs t tr) =
     Headers_set hs ''Authorization'' (''Bearer '' @ t)"
  by (simp_all add: initial_closure_def with_Authorization_def)

lemma fetch_settle:
  assumes "merged_headers h = Some hs" and "resolve_accessToken a = Inr (t, tr)"
  shows "fetch pf opts a rt h script =
           settle pf rt (call pf opts (initial_closure opts a hs t tr) script)"
  using assms by (simp add: fetch_def)

lemma fetch_unresolved:
  "merged_headers h = Some hs \<Longrightarrow> resolve_accessToken a = Inl e \<Longrightarrow>
     fetch pf opts a rt h script = (Some (Inl e), [])"
  by (simp add: fetch_def)

lemma fetch_bad_headers:
  "merged_headers h = None \<Longrightarrow> fetch pf opts a rt h script = (Some (Inl TypeError), [])"
  by (simp add: fetch_def)

lemma resolve_no_request:
  "resolve_accessToken a = Inr (t, tr) \<Longrightarrow> requests tr = [] \<and> refresh_calls tr = 0"
  by (auto simp: resolve_accessToken_def split: auth.splits option.splits)

lemma settle_error: "settle pf rt (Some (Inl e), st) = (Some (Inl e), trace st)"
  by (simp add: settle_def)

lemma settle_pending: "settle pf rt (None, st) = (None, trace st)"
  by (simp add: settle_def)

lemma settle_response:
  "settle pf rt (Some (Inr res), st) = (Some (fst (deliver pf rt res)), trace st @ snd (deliver pf rt res))"
  by (simp add: settle_def split: prod.splits)

subsection \<open>The effects of a call\<close>

lemma bearer_follows_append:
  "bearer_follows t (es @ fs) = (bearer_follows t es \<and> bearer_follows (token_after t es) fs)"
  by (induction t es rule: bearer_follows.induct) simp_all

lemma token_after_append: "token_after t (es @ fs) = token_after (token_after t es) fs"
  by (induction t es rule: token_after.induct) simp_all

lemma Authorization_sent:
  "with_Authorization st = Some H \<Longrightarrow>
     Headers_get H ''Authorization'' = Some (normalize_value (''Bearer '' @ accessToken st))"
  by (simp add: with_Authorization_def Headers_get_set)

lemma retry_or_fail_wait:
  assumes "status res = 429" "retryOnRateLimit opts" "truthy (Number pf (retry_after res))"
  shows "retry_or_fail pf opts st res =
           (None, st\<lparr>trace := trace st @ [Sleep_RetryAfter (Number pf (retry_after res))]\<rparr>)"
  using assms by (simp add: retry_or_fail_def)

lemma bearer_follows_quiet:
  "bearer_follows t (backoff opts)" "token_after t (backoff opts) = t"
  "bearer_follows t (snd (error_message pf res))" "token_after t (snd (error_message pf res)) = t"
  by (simp_all add: backoff_def error_message_def split: option.splits)

lemma retry_or_fail_effects:
  obtains new where "trace (snd (retry_or_fail pf opts st res)) = trace st @ new"
    and "bearer_follows t new" and "token_after t new = t" and "refresh_calls new = 0"
    and "accessToken (snd (retry_or_fail pf opts st res)) = accessToken st"
    and "isTriedRefreshToken (snd (retry_or_fail pf opts st res)) = isTriedRefreshToken st"
proof (cases "status res = 429 \<and> retryOnRateLimit opts \<and> truthy (Number pf (retry_after res))")
  case True
  then show ?thesis
    by (intro that [of "[Sleep_RetryAfter (Number pf (retry_after res))]"])
       (simp_all add: retry_or_fail_wait)
next
  case no_wait: False
  show ?thesis
  proof (cases "status_startsWith_5 (status res) \<and> retriesLeft st \<noteq> 0")
    case True
    with no_wait have "retry_or_fail pf opts st res =
        (None, st\<lparr>retriesLeft := retriesLeft st - 1, trace := trace st @ backoff opts\<rparr>)"
      by (auto simp add: retry_or_fail_def)
    then show ?thesis
      by (intro that [of "backoff opts"])
         (simp_all add: bearer_follows_quiet refresh_calls_backoff)
  next
    case False
    from retry_or_fail_terminal [OF no_wait False]
    show ?thesis
      by (intro that [of "snd (error_message pf res)"])
         (simp_all add: bearer_follows_quiet refresh_calls_error_message)
  qed
qed

lemma refresh_and_retry_effects:
  assumes "\<not> isTriedRefreshToken st"
  obtains new where "trace (snd (refresh_and_retry st p)) = trace st @ new"
    and "bearer_follows t new" and "refresh_calls new \<le> 1"
    and "fst (refresh_and_retry st p) = None \<longrightarrow>
          token_after t new = accessToken (snd (refresh_and_retry st p))"
    and "fst (refresh_and_retry st p) = None \<longrightarrow>
          isTriedRefreshToken (snd (refresh_and_retry st p))"
proof (cases "refreshToken p")
  case None
  then show ?thesis
    by (intro that [of "[]"]) (simp_all add: refresh_and_retry_def)
next
  case (Some r)
  then show ?thesis
    by (cases r; intro that [of "[Call_refreshToken r]"]) (simp_all add: refresh_and_retry_def)
qed

lemma attempt_static:
  assumes "with_Authorization st = Some H"
    and "outcome x = Responds res" "\<not> ok res" "authProvider (after_request st H x) = StaticToken s"
  shows "attempt pf opts st x = retry_or_fail pf opts (after_request st H x) res"
  using assms by (simp add: attempt_def Let_def)

lemma attempt_provider:
  assumes "with_Authorization st = Some H"
    and "outcome x = Responds res" "\<not> ok res"
    and "authProvider (after_request st H x) = ProviderObject p"
  shows "attempt pf opts st x =
           (if status res = 401 \<and> \<not> isTriedRefreshToken st
            then refresh_and_retry (after_request st H x) p
            else retry_or_fail pf opts (after_request st H x) res)"
  using assms by (simp add: attempt_def Let_def after_request_simps)

lemma attempt_shape:
  obtains (thrown) "with_Authorization st = None"
      "attempt pf opts st x = (Some (Inl TypeError), st)"
    | (rej) H where "with_Authorization st = Some H"
      "attempt pf opts st x = (Some (Inl TransportError), after_request st H x)"
    | (ok) H res where "with_Authorization st = Some H"
      "attempt pf opts st x = (Some (Inr res), after_request st H x)"
    | (refresh) H p where "with_Authorization st = Some H" "\<not> isTriedRefreshToken st"
        "attempt pf opts st x = refresh_and_retry (after_request st H x) p"
    | (other) H res where "with_Authorization st = Some H"
        "attempt pf opts st x = retry_or_fail pf opts (after_request st H x) res"
proof (cases "with_Authorization st")
  case None
  then show ?thesis
    by (intro thrown) (simp_all add: attempt_thrown)
next
  case (Some H)
  show ?thesis
  proof (cases "outcome x")
    case Rejects
    then have "attempt pf opts st x = (Some (Inl TransportError), after_request st H x)"
      using Some by (simp add: attempt_def Let_def)
    with Some show ?thesis by (rule rej)
  next
    case (Responds res)
    show ?thesis
    proof (cases "ok res")
      case True
      from attempt_ok [OF Some Responds True]
      show ?thesis by (rule ok [OF Some])
    next
      case False
      show ?thesis
      proof (cases "authProvider (after_request st H x)")
        case (StaticToken s)
        from attempt_static [OF Some Responds False StaticToken]
        show ?thesis by (rule other [OF Some])
      next
        case (ProviderObject p)
        note a = attempt_provider [OF Some Responds False ProviderObject, of pf opts]
        show ?thesis
        proof (cases "status res = 401 \<and> \<not> isTriedRefreshToken st")
          case True
          have "attempt pf opts st x = refresh_and_retry (after_request st H x) p"
            using True by (simp add: a)
          with True Some show ?thesis
            by (intro refresh [of H p]) simp_all
        next
          case no: False
          have "attempt pf opts st x = retry_or_fail pf opts (after_request st H x) res"
            by (simp only: a no if_False)
          then show ?thesis by (rule other [OF Some])
        qed
      qed
    qed
  qed
qed

lemma attempt_effects:
  obtains new where "trace (snd (attempt pf opts st x)) = trace st @ new"
    and "bearer_follows (accessToken st) new"
    and "refresh_calls new \<le> refresh_budget st"
    and "fst (attempt pf opts st x) = None \<longrightarrow>
          token_after (accessToken st) new = accessToken (snd (attempt pf opts st x))"
    and "fst (attempt pf opts st x) = None \<longrightarrow>
          refresh_calls new + refresh_budget (snd (attempt pf opts st x)) \<le> refresh_budget st"
proof (cases rule: attempt_shape [of st pf opts x])
  case thrown
  show ?thesis
    by (intro that [of "[]"]) (simp_all add: thrown(2))
next
  case (rej H)
  let ?f = "Fetched H (outcome x)"
  have "bearer_follows (accessToken st) [?f]"
    by (simp add: Authorization_sent [OF rej(1)])
  then show ?thesis
    by (intro that [of "[?f]"]) (simp_all add: rej(2) after_request_simps)
next
  case (ok H res)
  let ?f = "Fetched H (outcome x)"
  have "bearer_follows (accessToken st) [?f]"
    by (simp add: Authorization_sent [OF ok(1)])
  then show ?thesis
    by (intro that [of "[?f]"]) (simp_all add: ok(2) after_request_simps)
next
  case (refresh H p)
  let ?st1 = "after_request st H x"
  let ?f = "Fetched H (outcome x)"
  have f: "Headers_get H ''Authorization'' = Some (normalize_value (''Bearer '' @ accessToken st))"
    "trace ?st1 = trace st @ [?f]"
    by (simp_all add: Authorization_sent [OF refresh(1)] after_request_simps)
  from refresh(2) have nt: "\<not> isTriedRefreshToken ?st1"
    by (simp add: after_request_simps)
  obtain new where new: "trace (snd (refresh_and_retry ?st1 p)) = trace ?st1 @ new"
    "bearer_follows (accessToken st) new" "refresh_calls new \<le> 1"
    "fst (refresh_and_retry ?st1 p) = None \<longrightarrow>
        token_after (accessToken st) new = accessToken (snd (refresh_and_retry ?st1 p))"
    "fst (refresh_and_retry ?st1 p) = None \<longrightarrow>
        isTriedRefreshToken (snd (refresh_and_retry ?st1 p))"
    by (rule refresh_and_retry_effects [OF nt, of p "accessToken st"])
  have b: "refresh_budget st = 1"
    using refresh(2) by (simp add: refresh_budget_def)
  show ?thesis
  proof (rule that [of "?f # new"])
    show "trace (snd (attempt pf opts st x)) = trace st @ (?f # new)"
      using new(1) f(2) by (simp add: refresh(3))
    show "bearer_follows (accessToken st) (?f # new)"
      using new(2) f(1) by simp
    show "refresh_calls (?f # new) \<le> refresh_budget st"
      using new(3) b by simp
    show "fst (attempt pf opts st x) = None \<longrightarrow>
        token_after (accessToken st) (?f # new) = accessToken (snd (attempt pf opts st x))"
      using new(4) by (simp add: refresh(3))
    show "fst (attempt pf opts st x) = None \<longrightarrow>
        refresh_calls (?f # new) + refresh_budget (snd (attempt pf opts st x)) \<le> refresh_budget st"
      using new(3) new(5) b by (simp add: refresh(3) refresh_budget_def)
  qed
next
  case (other H res)
  let ?st1 = "after_request st H x"
  let ?f = "Fetched H (outcome x)"
  have f: "Headers_get H ''Authorization'' = Some (normalize_value (''Bearer '' @ accessToken st))"
    "trace ?st1 = trace st @ [?f]"
    by (simp_all add: Authorization_sent [OF other(1)] after_request_simps)
  obtain new where new: "trace (snd (retry_or_fail pf opts ?st1 res)) = trace ?st1 @ new"
    "bearer_follows (accessToken st) new" "token_after (accessToken st) new = accessToken st"
    "refresh_calls new = 0"
    "accessToken (snd (retry_or_fail pf opts ?st1 res)) = accessToken ?st1"
    "isTriedRefreshToken (snd (retry_or_fail pf opts ?st1 res)) = isTriedRefreshToken ?st1"
    by (rule retry_or_fail_effects [of pf opts ?st1 res "accessToken st"])
  show ?thesis
  proof (rule that [of "?f # new"])
    show "trace (snd (attempt pf opts st x)) = trace st @ (?f # new)"
      using new(1) f(2) by (simp add: other(2))
    show "bearer_follows (accessToken st) (?f # new)"
      using new(2) f(1) by simp
    show "refresh_calls (?f # new) \<le> refresh_budget st"
      using new(4) by simp
    show "fst (attempt pf opts st x) = None \<longrightarrow>
        token_after (accessToken st) (?f # new) = accessToken (snd (attempt pf opts st x))"
      using new(3,5) by (simp add: other(2) after_request_simps)
    show "fst (attempt pf opts st x) = None \<longrightarrow>
        refresh_calls (?f # new) + refresh_budget (snd (attempt pf opts st x)) \<le> refresh_budget st"
      using new(4,6) by (simp add: other(2) refresh_budget_def after_request_simps)
  qed
qed

lemma call_effects:
  "\<exists>new. trace (snd (call pf opts st xs)) = trace st @ new
     \<and> bearer_follows (accessToken st) new
     \<and> refresh_calls new \<le> refresh_budget st"
proof (induction xs arbitrary: st)
  case Nil
  show ?case by simp
next
  case (Cons x xs)
  obtain r st' where a: "attempt pf opts st x = (r, st')"
    by (cases "attempt pf opts st x")
  obtain new where new: "trace (snd (attempt pf opts st x)) = trace st @ new"
    "bearer_follows (accessToken st) new"
    "refresh_calls new \<le> refresh_budget st"
    "fst (attempt pf opts st x) = None \<longrightarrow>
          token_after (accessToken st) new = accessToken (snd (attempt pf opts st x))"
    "fst (attempt pf opts st x) = None \<longrightarrow>
          refresh_calls new + refresh_budget (snd (attempt pf opts st x)) \<le> refresh_budget st"
    by (rule attempt_effects [of pf opts st x])
  show ?case
  proof (cases r)
    case (Some v)
    have "call pf opts st (x # xs) = (Some v, st')"
      using a Some by simp
    moreover have "trace st' = trace st @ new"
      using new(1) a by simp
    ultimately show ?thesis
      using new(2,3) by (intro exI [of _ new]) simp
  next
    case None
    have c: "call pf opts st (x # xs) = call pf opts st' xs"
      using a None by simp
    have t: "trace st' = trace st @ new" "token_after (accessToken st) new = accessToken st'"
      "refresh_calls new + refresh_budget st' \<le> refresh_budget st"
      using new(1,4,5) a None by simp_all
    from Cons.IH [of st'] obtain more where more:
      "trace (snd (call pf opts st' xs)) = trace st' @ more
       \<and> bearer_follows (accessToken st') more \<and> refresh_calls more \<le> refresh_budget st'" ..
    show ?thesis
      unfolding c using t more new(2)
      by (intro exI [of _ "new @ more"])
         (simp add: bearer_follows_append refresh_calls_append)
  qed
qed

lemma call_append:
  "fst (call pf opts st xs) = None \<Longrightarrow>
     call pf opts st (xs @ ys) = call pf opts (snd (call pf opts st xs)) ys"
proof (induction xs arbitrary: st)
  case Nil
  show ?case by simp
next
  case (Cons x xs)
  obtain r st' where a: "attempt pf opts st x = (r, st')"
    by (cases "attempt pf opts st x")
  show ?case
  proof (cases r)
    case (Some v)
    with a Cons.prems show ?thesis by simp
  next
    case None
    with a Cons.prems have "fst (call pf opts st' xs) = None" by simp
    from Cons.IH [OF this] show ?thesis
      using a None by simp
  qed
qed

lemma fetch_pending:
  assumes "fst (fetch pf opts a rt h pre) = None"
  obtains hs t tr where "merged_headers h = Some hs" and "resolve_accessToken a = Inr (t, tr)"
    and "fst (call pf opts (initial_closure opts a hs t tr) pre) = None"
proof (cases "merged_headers h")
  case None
  with assms show ?thesis by (simp add: fetch_bad_headers)
next
  case (Some hs)
  show ?thesis
  proof (cases "resolve_accessToken a")
    case (Inl e)
    with assms Some show ?thesis by (simp add: fetch_unresolved)
  next
    case (Inr p)
    obtain t tr where p: "p = (t, tr)" by (cases p)
    obtain r st where c: "call pf opts (initial_closure opts a hs t tr) pre = (r, st)"
      by (cases "call pf opts (initial_closure opts a hs t tr) pre")
    have "r = None"
    proof (cases r)
      case None
      then show ?thesis .
    next
      case (Some v)
      with assms \<open>merged_headers h = Some hs\<close> Inr p c show ?thesis
        by (cases v) (simp_all add: fetch_settle settle_error settle_response)
    qed
    with Some Inr p c show ?thesis
      by (intro that [of hs t tr]) simp_all
  qed
qed

subsection \<open>A whole call\<close>

lemma call_done:
  "attempt pf opts st x = (Some r, st') \<Longrightarrow> call pf opts st (x # xs) = (Some r, st')"
  by simp

lemma call_again:
  "attempt pf opts st x = (None, st') \<Longrightarrow> call pf opts st (x # xs) = call pf opts st' xs"
  by simp

lemma not_ok_4xx: "400 \<le> status res \<Longrightarrow> \<not> ok res"
  by (simp add: ok_def)

lemma bearer_follows_deliver: "bearer_follows t (snd (deliver pf rt res))"
  by (simp add: deliver_def split: ExpectedResponse.splits option.splits)

lemma trace_settle:
  "\<exists>more. snd (settle pf rt (r, st)) = trace st @ more \<and> bearer_follows t more
      \<and> refresh_calls more = 0 \<and> requests more = []"
proof (cases r)
  case None
  then show ?thesis by (simp add: settle_pending)
next
  case (Some v)
  show ?thesis
  proof (cases v)
    case (Inl e)
    with Some show ?thesis by (simp add: settle_error)
  next
    case (Inr res)
    with Some show ?thesis
      by (simp add: settle_response bearer_follows_deliver refresh_calls_deliver requests_deliver)
  qed
qed

lemma fetch_refresh_calls: "refresh_calls (snd (fetch pf opts a rt h script)) \<le> 1"
proof (cases "merged_headers h")
  case None
  then show ?thesis by (simp add: fetch_bad_headers)
next
  case (Some hs)
  show ?thesis
  proof (cases "resolve_accessToken a")
    case (Inl e)
    with Some show ?thesis by (simp add: fetch_unresolved)
  next
    case (Inr p)
    obtain t tr where p: "p = (t, tr)" by (cases p)
    let ?st = "initial_closure opts a hs t tr"
    obtain r st' where c: "call pf opts ?st script = (r, st')"
      by (cases "call pf opts ?st script")
    from call_effects [of pf opts ?st script] obtain new where
      new: "trace (snd (call pf opts ?st script)) = trace ?st @ new
        \<and> bearer_follows (accessToken ?st) new \<and> refresh_calls new \<le> refresh_budget ?st" ..
    from trace_settle [of pf rt r st' t] obtain more where
      more: "snd (settle pf rt (r, st')) = trace st' @ more \<and> bearer_follows t more
        \<and> refresh_calls more = 0 \<and> requests more = []" ..
    have "refresh_calls tr = 0"
      using Inr p resolve_no_request by blast
    then show ?thesis
      using new more c Inr p
      by (simp add: fetch_settle [OF Some] initial_closure_simps refresh_calls_append
          refresh_budget_def)
  qed
qed

lemma fetch_continue:
  assumes "fst (fetch pf opts a rt h pre) = None"
  obtains st where "fetch pf opts a rt h pre = (None, trace st)"
    and "\<forall>ys. fetch pf opts a rt h (pre @ ys) = settle pf rt (call pf opts st ys)"
proof -
  obtain hs t tr where m: "merged_headers h = Some hs" and r: "resolve_accessToken a = Inr (t, tr)"
    and p: "fst (call pf opts (initial_closure opts a hs t tr) pre) = None"
    by (rule fetch_pending [OF assms])
  obtain r0 st where c0: "call pf opts (initial_closure opts a hs t tr) pre = (r0, st)"
    by (cases "call pf opts (initial_closure opts a hs t tr) pre")
  with p have c: "call pf opts (initial_closure opts a hs t tr) pre = (None, st)"
    by simp
  show ?thesis
  proof (rule that [of st])
    show "fetch pf opts a rt h pre = (None, trace st)"
      by (simp only: fetch_settle [OF m r] c settle_pending)
    show "\<forall>ys. fetch pf opts a rt h (pre @ ys) = settle pf rt (call pf opts st ys)"
      by (simp add: fetch_settle [OF m r] call_append [OF p] c)
  qed
qed

lemma call_thrown:
  "with_Authorization st = None \<Longrightarrow> call pf opts st (x # rest) = (Some (Inl TypeError), st)"
  by (simp add: attempt_thrown)

lemma call_terminal:
  assumes "with_Authorization st = Some H"
    and "outcome x = Responds res" "\<not> ok res" "status res \<noteq> 401"
    and "\<not> (status res = 429 \<and> retryOnRateLimit opts \<and> truthy (Number pf (retry_after res)))"
    and "\<not> status_startsWith_5 (status res)"
  shows "call pf opts st (x # rest) =
           (Some (Inl (SpotifyError (fst (error_message pf res)) (status res))),
            (after_request st H x)
              \<lparr>trace := trace (after_request st H x) @ snd (error_message pf res)\<rparr>)"
proof -
  have "retry_or_fail pf opts (after_request st H x) res =
           (Some (Inl (SpotifyError (fst (error_message pf res)) (status res))),
            (after_request st H x)
              \<lparr>trace := trace (after_request st H x) @ snd (error_message pf res)\<rparr>)"
    using assms(5,6) by (intro retry_or_fail_terminal) simp_all
  then show ?thesis
    by (simp add: attempt_not_401 [OF assms(1-4)])
qed

subsection \<open>Rate-limit waits\<close>

lemma not_ok_429: "status res = 429 \<Longrightarrow> \<not> ok res"
  by (simp add: ok_def)

lemma attempt_wait:
  assumes "with_Authorization st = Some H"
    and "retryOnRateLimit opts" "status res = 429" "truthy (Number pf (retry_after res))"
  shows "attempt pf opts st (Exchange (Responds res) None) =
           (None, st\<lparr>req_headers := H,
                     trace := trace st @ [Fetched H (Responds res),
                                          Sleep_RetryAfter (Number pf (retry_after res))]\<rparr>)"
proof -
  let ?x = "Exchange (Responds res) None"
  have "attempt pf opts st ?x = retry_or_fail pf opts (after_request st H ?x) res"
    using assms(3) by (intro attempt_not_401 [OF assms(1)]) (simp_all add: ok_def)
  also have "\<dots> = (None, (after_request st H ?x)\<lparr>trace := trace (after_request st H ?x)
                        @ [Sleep_RetryAfter (Number pf (retry_after res))]\<rparr>)"
    by (rule retry_or_fail_wait [OF assms(3) assms(2) assms(4)])
  also have "\<dots> = (None, st\<lparr>req_headers := H,
                     trace := trace st @ [Fetched H (Responds res),
                                          Sleep_RetryAfter (Number pf (retry_after res))]\<rparr>)"
    by (simp add: after_request_def)
  finally show ?thesis .
qed

lemma with_Authorization_sent:
  "with_Authorization st = Some H \<Longrightarrow>
     with_Authorization (st\<lparr>req_headers := H, trace := tr\<rparr>) = Some H"
  by (simp add: with_Authorization_def Headers_set_idem)

lemma call_waits:
  assumes "with_Authorization st = Some H"
    and "retryOnRateLimit opts" "status res = 429" "truthy (Number pf (retry_after res))"
  shows "call pf opts st (replicate (Suc k) (Exchange (Responds res) None) @ rest) =
           call pf opts
             (st\<lparr>req_headers := H,
                 trace := trace st
                   @ concat (replicate (Suc k)
                       [Fetched H (Responds res),
                        Sleep_RetryAfter (Number pf (retry_after res))])\<rparr>) rest"
  using assms(1)
proof (induction k arbitrary: st)
  case 0
  show ?case
    by (simp add: attempt_wait [OF "0.prems" assms(2-4)])
next
  case (Suc k)
  let ?st1 = "st\<lparr>req_headers := H,
                     trace := trace st @ [Fetched H (Responds res),
                                          Sleep_RetryAfter (Number pf (retry_after res))]\<rparr>"
  have sent: "with_Authorization ?st1 = Some H"
    by (rule with_Authorization_sent [OF Suc.prems])
  have "call pf opts st (replicate (Suc (Suc k)) (Exchange (Responds res) None) @ rest)
      = call pf opts ?st1 (replicate (Suc k) (Exchange (Responds res) None) @ rest)"
    by (simp add: attempt_wait [OF Suc.prems assms(2-4)])
  also have "\<dots> = call pf opts
             (?st1\<lparr>req_headers := H,
                 trace := trace ?st1
                   @ concat (replicate (Suc k)
                       [Fetched H (Responds res),
                        Sleep_RetryAfter (Number pf (retry_after res))])\<rparr>) rest"
    by (rule Suc.IH [OF sent])
  finally show ?case
    by simp
qed

lemma call_wait_then_ok:
  assumes "with_Authorization st = Some H"
    and "retryOnRateLimit opts" "status res = 429" "truthy (Number pf (retry_after res))"
    and "ok res'"
  shows "call pf opts st (replicate k (Exchange (Responds res) None) @ [Exchange (Responds res') sw]) =
           (Some (Inr res'),
            st\<lparr>req_headers := H,
               authProvider := (case sw of None \<Rightarrow> authProvider st | Some a \<Rightarrow> a),
               trace := trace st
                 @ concat (replicate k
                     [Fetched H (Responds res),
                      Sleep_RetryAfter (Number pf (retry_after res))])
                 @ [Fetched H (Responds res')]\<rparr>)"
proof -
  have fin: "attempt pf opts st' (Exchange (Responds res') sw') =
      (Some (Inr res'), after_request st' H (Exchange (Responds res') sw'))"
    if "with_Authorization st' = Some H" for st' sw'
    by (rule attempt_ok [OF that _ assms(5)]) simp
  show ?thesis
  proof (cases k)
    case 0
    have "call pf opts st [Exchange (Responds res') sw] =
        (Some (Inr res'), after_request st H (Exchange (Responds res') sw))"
      by (rule call_done [OF fin [OF assms(1)]])
    with 0 show ?thesis
      by (cases sw) (simp_all add: after_request_def)
  next
    case (Suc j)
    let ?st1 = "st\<lparr>req_headers := H,
                 trace := trace st
                   @ concat (replicate (Suc j)
                       [Fetched H (Responds res),
                        Sleep_RetryAfter (Number pf (retry_after res))])\<rparr>"
    have sent: "with_Authorization ?st1 = Some H"
      by (rule with_Authorization_sent [OF assms(1)])
    have "call pf opts ?st1 [Exchange (Responds res') sw] =
        (Some (Inr res'), after_request ?st1 H (Exchange (Responds res') sw))"
      by (rule call_done [OF fin [OF sent]])
    then show ?thesis
      unfolding Suc call_waits [OF assms(1-4)]
      by (cases sw) (simp_all add: after_request_def)
  qed
qed

subsection \<open>The refresh after a first 401\<close>

lemma call_401_refresh:
  assumes "Headers_set hs ''Authorization'' (''Bearer '' @ t) = Some H"
    and "refreshToken p = Some (Resolved t')" and "status r1 = 401"
  shows "call pf opts (initial_closure opts (ProviderObject p) hs t tr)
           (Exchange (Responds r1) None # ys) =
         call pf opts
           \<lparr>isTriedRefreshToken = True, retriesLeft = retryTimesOn5xx opts, accessToken = t',
            authProvider = ProviderObject p, req_headers = H,
            trace = tr @ [Fetched H (Responds r1), Call_refreshToken (Resolved t')]\<rparr> ys"
proof -
  let ?a = "ProviderObject p"
  let ?x1 = "Exchange (Responds r1) None"
  let ?st = "initial_closure opts ?a hs t tr"
  have w: "with_Authorization ?st = Some H"
    using assms(1) by (simp add: initial_closure_simps)
  have n1: "\<not> ok r1"
    using assms(3) by (simp add: ok_def)
  have o1: "outcome ?x1 = Responds r1" by simp
  have ap1: "authProvider (after_request ?st H ?x1) = ?a"
    by (simp add: after_request_def initial_closure_simps)
  have "attempt pf opts ?st ?x1 = refresh_and_retry (after_request ?st H ?x1) p"
    using attempt_provider [OF w o1 n1 ap1, of pf opts] assms(3)
    by (simp add: initial_closure_simps)
  then have "attempt pf opts ?st ?x1 =
      (None, \<lparr>isTriedRefreshToken = True, retriesLeft = retryTimesOn5xx opts, accessToken = t',
            authProvider = ProviderObject p, req_headers = H,
            trace = tr @ [Fetched H (Responds r1), Call_refreshToken (Resolved t')]\<rparr>)"
    using assms(2)
    by (simp add: refresh_and_retry_def after_request_def initial_closure_def)
  then show ?thesis
    by (rule call_again)
qed

lemma call_second_401:
  assumes "Headers_set H ''Authorization'' (''Bearer '' @ t') = Some H'"
    and "status r2 = 401"
  shows "call pf opts
           \<lparr>isTriedRefreshToken = True, retriesLeft = n, accessToken = t',
            authProvider = a, req_headers = H, trace = tr\<rparr>
           (Exchange (Responds r2) None # rest) =
         (Some (Inl (SpotifyError (fst (error_message pf r2)) 401)),
          \<lparr>isTriedRefreshToken = True, retriesLeft = n, accessToken = t',
            authProvider = a, req_headers = H',
            trace = tr @ [Fetched H' (Responds r2)] @ snd (error_message pf r2)\<rparr>)"
proof -
  let ?st = "\<lparr>isTriedRefreshToken = True, retriesLeft = n, accessToken = t',
            authProvider = a, req_headers = H, trace = tr\<rparr>"
  let ?x = "Exchange (Responds r2) None"
  have w: "with_Authorization ?st = Some H'"
    using assms(1) by (simp add: with_Authorization_def)
  have n2: "\<not> ok r2"
    using assms(2) by (simp add: ok_def)
  have o: "outcome ?x = Responds r2" by simp
  have "attempt pf opts ?st ?x = retry_or_fail pf opts (after_request ?st H' ?x) r2"
  proof (cases a)
    case (StaticToken s)
    then have "authProvider (after_request ?st H' ?x) = StaticToken s"
      by (simp add: after_request_def)
    from attempt_static [OF w o n2 this] show ?thesis .
  next
    case (ProviderObject p)
    then have "authProvider (after_request ?st H' ?x) = ProviderObject p"
      by (simp add: after_request_def)
    from attempt_provider [OF w o n2 this, of pf opts] show ?thesis by simp
  qed
  also have "\<dots> = (Some (Inl (SpotifyError (fst (error_message pf r2)) (status r2))),
       (after_request ?st H' ?x)\<lparr>trace := trace (after_request ?st H' ?x) @ snd (error_message pf r2)\<rparr>)"
    using assms(2) by (intro retry_or_fail_terminal) (simp_all add: startsWith_5_4xx)
  finally have "attempt pf opts ?st ?x =
      (Some (Inl (SpotifyError (fst (error_message pf r2)) (status r2))),
       (after_request ?st H' ?x)\<lparr>trace := trace (after_request ?st H' ?x) @ snd (error_message pf r2)\<rparr>)" .
  from call_done [OF this] show ?thesis
    using assms(2) by (simp add: after_request_def)
qed

subsection \<open>The message of a terminal failure\<close>

lemma error_message_no_body:
  "body res = None \<Longrightarrow> fst (error_message pf res) = Val (JStr ''null'')"
  by (simp add: error_message_def)

lemma error_message_not_json:
  "body res = Some text \<Longrightarrow> JSON_parse pf text = None \<Longrightarrow>
     fst (error_message pf res) = Val (JStr text)"
  by (simp add: error_message_def)

lemma error_message_envelope:
  "body res = Some text \<Longrightarrow> JSON_parse pf text = Some (JObj kvs) \<Longrightarrow>
     map_of kvs ''error'' = Some (JObj e) \<Longrightarrow> map_of e ''message'' = Some m \<Longrightarrow>
     fst (error_message pf res) = Val m"
  by (simp add: error_message_def envelope_message_def)

subsection \<open>Evaluation on concrete inputs\<close>

lemmas header_defs =
  merged_headers_def BASE_HEADERS_def Headers_append_def Headers_set_def Headers_get_def
  byte_lowercase_def lower_char_def HTTP_whitespace_def normalize_value_def tchar_def
  valid_name_def valid_value_def Let_def

lemmas eval_defs =
  fetch_def resolve_accessToken_def initial_closure_def attempt_def after_request_def
  with_Authorization_def retry_or_fail_def refresh_and_retry_def error_message_def
  envelope_message_def ok_def backoff_def settle_def deliver_def answer_def
  header_defs example_platform_def no_retries_def
  old_provider_def new_provider_def auth_module_provider_def

lemma merged_headers_None:
  "merged_headers None = Some [(''content-type'', ''application/json''), (''accept'', ''application/json'')]"
  by code_simp

lemma Authorization_examples:
  "Headers_set [(''content-type'', ''application/json''), (''accept'', ''application/json'')]
     ''Authorization'' ''Bearer t''
   = Some [(''content-type'', ''application/json''), (''accept'', ''application/json''),
           (''authorization'', ''Bearer t'')]"
  "Headers_set [(''content-type'', ''application/json''), (''accept'', ''application/json'')]
     ''Authorization'' ''Bearer old''
   = Some [(''content-type'', ''application/json''), (''accept'', ''application/json''),
           (''authorization'', ''Bearer old'')]"
  "Headers_set [(''content-type'', ''application/json''), (''accept'', ''application/json''),
                (''authorization'', ''Bearer old'')]
     ''Authorization'' ''Bearer fresh''
   = Some [(''content-type'', ''application/json''), (''accept'', ''application/json''),
           (''authorization'', ''Bearer fresh'')]"
  by code_simp+


lemma byte_lowercase_names:
  "byte_lowercase ''Authorization'' = ''authorization''"
  "byte_lowercase ''Content-Type'' = ''content-type''"
  "byte_lowercase ''Accept'' = ''accept''"
  by code_simp+

subsection \<open>Sleeps before retries\<close>

lemma sleeps_5xx_append: "sleeps_5xx (es @ fs) = sleeps_5xx es @ sleeps_5xx fs"
  by (induction es rule: sleeps_5xx.induct) simp_all

lemma sleeps_5xx_error_message: "sleeps_5xx (snd (error_message pf res)) = []"
  by (simp add: error_message_def split: option.splits)

lemma sleeps_5xx_resolve: "resolve_accessToken a = Inr (t, tr) \<Longrightarrow> sleeps_5xx tr = []"
  by (auto simp: resolve_accessToken_def split: auth.splits option.splits)

lemma sleeps_5xx_retries:
  "sleeps_5xx (concat (map (\<lambda>x. Fetched hs (outcome x) # backoff opts) xs))
     = concat (replicate (length xs) (sleeps_5xx (backoff opts)))"
  by (induction xs) (simp_all add: sleeps_5xx_append)

lemma concat_replicate_single: "concat (replicate n [d]) = replicate n d"
  by (induction n) simp_all

lemma concat_replicate_Nil: "concat (replicate n []) = []"
  by (induction n) simp_all

subsection \<open>The trace of a whole call\<close>

lemma fetch_trace:
  assumes "merged_headers h = Some hs" and "resolve_accessToken a = Inr (t, tr0)"
  shows "\<exists>tr. snd (fetch pf opts a rt h script) = tr0 @ tr \<and> bearer_follows t tr"
proof -
  let ?st = "initial_closure opts a hs t tr0"
  obtain r st' where c: "call pf opts ?st script = (r, st')"
    by (cases "call pf opts ?st script")
  from call_effects [of pf opts ?st script] obtain new where
    new: "trace (snd (call pf opts ?st script)) = trace ?st @ new
      \<and> bearer_follows (accessToken ?st) new \<and> refresh_calls new \<le> refresh_budget ?st" ..
  from trace_settle [of pf rt r st' "token_after t new"] obtain more where
    more: "snd (settle pf rt (r, st')) = trace st' @ more \<and> bearer_follows (token_after t new) more
      \<and> refresh_calls more = 0 \<and> requests more = []" ..
  have "snd (fetch pf opts a rt h script) = tr0 @ (new @ more)"
    using new more c by (simp add: fetch_settle [OF assms] initial_closure_simps)
  moreover have "bearer_follows t (new @ more)"
    using new more by (simp add: bearer_follows_append initial_closure_simps)
  ultimately show ?thesis
    by (intro exI [of _ "new @ more"]) simp
qed

lemma fetch_401_refresh:
  assumes "merged_headers h = Some hs" and "getToken p = Some t"
    and "Headers_set hs ''Authorization'' (''Bearer '' @ t) = Some H"
    and "refreshToken p = Some (Resolved t')" and "status r1 = 401"
  shows "fetch pf opts (ProviderObject p) rt h (Exchange (Responds r1) None # ys) =
         settle pf rt (call pf opts
           \<lparr>isTriedRefreshToken = True, retriesLeft = retryTimesOn5xx opts, accessToken = t',
            authProvider = ProviderObject p, req_headers = H,
            trace = [Call_getToken, Fetched H (Responds r1), Call_refreshToken (Resolved t')]\<rparr> ys)"
proof -
  have r: "resolve_accessToken (ProviderObject p) = Inr (t, [Call_getToken])"
    using assms(2) by (simp add: resolve_accessToken_def)
  from call_401_refresh [OF assms(3,4,5), where tr = "[Call_getToken]"]
  have "call pf opts (initial_closure opts (ProviderObject p) hs t [Call_getToken])
           (Exchange (Responds r1) None # ys) =
         call pf opts
           \<lparr>isTriedRefreshToken = True, retriesLeft = retryTimesOn5xx opts, accessToken = t',
            authProvider = ProviderObject p, req_headers = H,
            trace = [Call_getToken, Fetched H (Responds r1), Call_refreshToken (Resolved t')]\<rparr> ys"
    by simp
  then show ?thesis
    by (simp only: fetch_settle [OF assms(1) r])
qed

lemma fetch_401_twice:
  assumes "merged_headers h = Some hs" and "getToken p = Some t"
    and "Headers_set hs ''Authorization'' (''Bearer '' @ t) = Some H"
    and "refreshToken p = Some (Resolved t')" and "status r1 = 401"
    and "Headers_set H ''Authorization'' (''Bearer '' @ t') = Some H'" and "status r2 = 401"
  shows "fetch pf opts (ProviderObject p) rt h
           (Exchange (Responds r1) None # Exchange (Responds r2) None # rest) =
         (Some (Inl (SpotifyError (fst (error_message pf r2)) 401)),
          [Call_getToken, Fetched H (Responds r1), Call_refreshToken (Resolved t'),
           Fetched H' (Responds r2)] @ snd (error_message pf r2))"
  by (simp only: fetch_401_refresh [OF assms(1-5)] call_second_401 [OF assms(6,7)] settle_error)
     simp

lemma fetch_401_then_ok:
  assumes "merged_headers h = Some hs" and "getToken p = Some t"
    and "Headers_set hs ''Authorization'' (''Bearer '' @ t) = Some H"
    and "refreshToken p = Some (Resolved t')" and "status r1 = 401"
    and "Headers_set H ''Authorization'' (''Bearer '' @ t') = Some H'" and "ok r2"
  shows "fetch pf opts (ProviderObject p) rt h
           [Exchange (Responds r1) None, Exchange (Responds r2) None] =
         (Some (fst (deliver pf rt r2)),
          [Call_getToken, Fetched H (Responds r1), Call_refreshToken (Resolved t'),
           Fetched H' (Responds r2)] @ snd (deliver pf rt r2))"
proof -
  let ?st2 = "\<lparr>isTriedRefreshToken = True, retriesLeft = retryTimesOn5xx opts, accessToken = t',
            authProvider = ProviderObject p, req_headers = H,
            trace = [Call_getToken, Fetched H (Responds r1), Call_refreshToken (Resolved t')]\<rparr>"
  let ?x2 = "Exchange (Responds r2) None"
  have w2: "with_Authorization ?st2 = Some H'"
    using assms(6) by (simp add: with_Authorization_def)
  have "attempt pf opts ?st2 ?x2 = (Some (Inr r2), after_request ?st2 H' ?x2)"
    by (rule attempt_ok [OF w2 _ assms(7)]) simp
  then have "call pf opts ?st2 [?x2] = (Some (Inr r2), after_request ?st2 H' ?x2)"
    by (rule call_done)
  then show ?thesis
    by (simp only: fetch_401_refresh [OF assms(1-5)] settle_response)
       (simp add: after_request_def)
qed

section \<open>The claims\<close>

text \<open>
  C5. With a retry count \<open>n\<close> and a transport that answers every attempt with a
  status from 500 to 599, a call makes exactly \<open>n + 1\<close> requests and fails with a
  SpotifyError that carries the status of the last answer and the message
  extracted from it. When the configured delay is not zero, every one of the
  first \<open>n\<close> requests is followed by a sleep of that many milliseconds, before the
  next request is sent, so the call sleeps \<open>n\<close> times; when the delay is zero it
  does not sleep. The trace is given in full: the effects of resolving the
  token, \<open>n\<close> times a request followed by the sleep, the last request, and the
  reading of its body. Here the caller's headers are accepted by the \<^verbatim>\<open>Headers\<close>
  object (\<open>hs\<close> is the merged list) and so is the Authorization header for the
  token (\<open>H\<close> is the list the requests are sent with).
\<close>

theorem C5_server_error_retries:
  assumes "merged_headers h = Some hs"
    and "resolve_accessToken a = Inr (t, tr0)"
    and "Headers_set hs ''Authorization'' (''Bearer '' @ t) = Some H"
    and "retryTimesOn5xx opts = int n"
    and "n < length script"
    and "\<forall>x\<in>set script. answers_5xx x"
    and "outcome (script ! n) = Responds res"
  shows "fetch pf opts a rt h script =
           (Some (Inl (SpotifyError (fst (error_message pf res)) (status res))),
            tr0
            @ concat (map (\<lambda>x. Fetched H (outcome x)
                                # (if retryDelayOn5xx opts \<noteq> 0
                                   then [Sleep_5xx (retryDelayOn5xx opts)] else []))
                        (take n script))
            @ [Fetched H (Responds res)]
            @ snd (error_message pf res))
       \<and> attempts (snd (fetch pf opts a rt h script)) = n + 1
       \<and> sleeps_5xx (snd (fetch pf opts a rt h script)) =
           (if retryDelayOn5xx opts \<noteq> 0 then replicate n (retryDelayOn5xx opts) else [])"
proof -
  let ?st = "initial_closure opts a hs t tr0"
  let ?err = "Some (Inl (SpotifyError (fst (error_message pf res)) (status res)))"
  have w: "with_Authorization ?st = Some H"
    using assms(3) by (simp add: initial_closure_simps)
  have rl: "retriesLeft ?st = int n"
    using assms(4) by (simp add: initial_closure_simps)
  from call_5xx [OF w rl assms(5) assms(6) assms(7), of pf opts]
  have c: "fst (call pf opts ?st script) = ?err"
    and tr: "trace (snd (call pf opts ?st script)) =
           trace ?st
           @ concat (map (\<lambda>x. Fetched H (outcome x) # backoff opts) (take n script))
           @ [Fetched H (Responds res)] @ snd (error_message pf res)"
    by simp_all
  obtain r st' where cs: "call pf opts ?st script = (r, st')"
    by (cases "call pf opts ?st script")
  have eq: "fetch pf opts a rt h script = (?err, trace st')"
    using c cs by (simp add: fetch_settle [OF assms(1,2)] settle_error)
  have trb: "trace st' =
           tr0
           @ concat (map (\<lambda>x. Fetched H (outcome x) # backoff opts) (take n script))
           @ [Fetched H (Responds res)] @ snd (error_message pf res)"
    using tr cs by (simp add: initial_closure_simps)
  have len: "length (take n script) = n"
    using assms(5) by simp
  have att: "attempts (trace st') = n + 1"
    using resolve_no_request [OF assms(2)] len
    by (simp add: trb attempts_def requests_append requests_retries requests_error_message)
  have sl: "sleeps_5xx (trace st') = concat (replicate n (sleeps_5xx (backoff opts)))"
    using sleeps_5xx_resolve [OF assms(2)] len
    by (simp add: trb sleeps_5xx_append sleeps_5xx_retries sleeps_5xx_error_message)
  have sl': "sleeps_5xx (trace st') =
           (if retryDelayOn5xx opts \<noteq> 0 then replicate n (retryDelayOn5xx opts) else [])"
    by (simp add: sl backoff_def concat_replicate_single concat_replicate_Nil)
  have tr': "trace st' =
            tr0
            @ concat (map (\<lambda>x. Fetched H (outcome x)
                                # (if retryDelayOn5xx opts \<noteq> 0
                                   then [Sleep_5xx (retryDelayOn5xx opts)] else []))
                        (take n script))
            @ [Fetched H (Responds res)]
            @ snd (error_message pf res)"
    unfolding trb backoff_def ..
  show ?thesis
    unfolding eq using tr' att sl' by simp
qed

theorem C5_server_error_retries_witness:
  "merged_headers None = Some [(''content-type'', ''application/json''), (''accept'', ''application/json'')]
   \<and> resolve_accessToken (StaticToken ''t'') = Inr (''t'', [])
   \<and> Headers_set [(''content-type'', ''application/json''), (''accept'', ''application/json'')] ''Authorization'' (''Bearer '' @ ''t'')
       = Some [(''content-type'', ''application/json''), (''accept'', ''application/json''), (''authorization'', ''Bearer t'')]
   \<and> retryTimesOn5xx \<lparr>retryTimesOn5xx = 2, retryDelayOn5xx = 100, retryOnRateLimit = False\<rparr> = int 2
   \<and> answers_5xx (answer 503 None None)
   \<and> answers_5xx (answer 503 None (Some ''Service Unavailable''))
   \<and> fetch example_platform \<lparr>retryTimesOn5xx = 2, retryDelayOn5xx = 100, retryOnRateLimit = False\<rparr>
        (StaticToken ''t'') Json None
        [answer 503 None None, answer 503 None None, answer 503 None (Some ''Service Unavailable'')]
     = (Some (Inl (SpotifyError (Val (JStr ''Service Unavailable'')) 503)),
        [Fetched [(''content-type'', ''application/json''), (''accept'', ''application/json''), (''authorization'', ''Bearer t'')]
           (Responds \<lparr>status = 503, retry_after = None, body = None\<rparr>),
         Sleep_5xx 100,
         Fetched [(''content-type'', ''application/json''), (''accept'', ''application/json''), (''authorization'', ''Bearer t'')]
           (Responds \<lparr>status = 503, retry_after = None, body = None\<rparr>),
         Sleep_5xx 100,
         Fetched [(''content-type'', ''application/json''), (''accept'', ''application/json''), (''authorization'', ''Bearer t'')]
           (Responds \<lparr>status = 503, retry_after = None, body = Some ''Service Unavailable''\<rparr>),
         Read_text])
   \<and> attempts (snd (fetch example_platform
        \<lparr>retryTimesOn5xx = 2, retryDelayOn5xx = 100, retryOnRateLimit = False\<rparr>
        (StaticToken ''t'') Json None
        [answer 503 None None, answer 503 None None, answer 503 None (Some ''Service Unavailable'')])) = 3
   \<and> sleeps_5xx (snd (fetch example_platform
        \<lparr>retryTimesOn5xx = 2, retryDelayOn5xx = 100, retryOnRateLimit = False\<rparr>
        (StaticToken ''t'') Json None
        [answer 503 None None, answer 503 None None, answer 503 None (Some ''Service Unavailable'')]))
     = [100, 100]"
proof -
  let ?opts = "\<lparr>retryTimesOn5xx = 2, retryDelayOn5xx = 100, retryOnRateLimit = False\<rparr>"
  let ?script = "[answer 503 None None, answer 503 None None, answer 503 None (Some ''Service Unavailable'')]"
  let ?res = "\<lparr>status = 503, retry_after = None, body = Some ''Service Unavailable''\<rparr>"
  have h0: "merged_headers None = Some [(''content-type'', ''application/json''), (''accept'', ''application/json'')]"
    by (rule merged_headers_None)
  have h1: "resolve_accessToken (StaticToken ''t'') = Inr (''t'', [])"
    by (simp add: resolve_accessToken_def)
  have hA: "Headers_set [(''content-type'', ''application/json''), (''accept'', ''application/json'')] ''Authorization'' (''Bearer '' @ ''t'')
       = Some [(''content-type'', ''application/json''), (''accept'', ''application/json''), (''authorization'', ''Bearer t'')]"
    by (simp add: Authorization_examples)
  have h2: "retryTimesOn5xx ?opts = int 2" by simp
  have h3: "2 < length ?script" by simp
  have h4: "\<forall>x\<in>set ?script. answers_5xx x"
    by (simp add: answers_5xx_def answer_def)
  have h5: "outcome (?script ! 2) = Responds ?res"
    by (simp add: answer_def)
  have m: "error_message example_platform ?res = (Val (JStr ''Service Unavailable''), [Read_text])"
    by (simp add: error_message_def example_platform_def)
  note main = C5_server_error_retries [OF h0 h1 hA h2 h3 h4 h5, of example_platform Json]
  have r: "fetch example_platform ?opts (StaticToken ''t'') Json None ?script
     = (Some (Inl (SpotifyError (Val (JStr ''Service Unavailable'')) 503)),
        [Fetched [(''content-type'', ''application/json''), (''accept'', ''application/json''), (''authorization'', ''Bearer t'')]
           (Responds \<lparr>status = 503, retry_after = None, body = None\<rparr>),
         Sleep_5xx 100,
         Fetched [(''content-type'', ''application/json''), (''accept'', ''application/json''), (''authorization'', ''Bearer t'')]
           (Responds \<lparr>status = 503, retry_after = None, body = None\<rparr>),
         Sleep_5xx 100,
         Fetched [(''content-type'', ''application/json''), (''accept'', ''application/json''), (''authorization'', ''Bearer t'')]
           (Responds \<lparr>status = 503, retry_after = None, body = Some ''Service Unavailable''\<rparr>),
         Read_text])"
    using conjunct1 [OF main] by (simp add: m answer_def)
  have n: "attempts (snd (fetch example_platform ?opts (StaticToken ''t'') Json None ?script)) = 3"
    using conjunct1 [OF conjunct2 [OF main]] by simp
  have s: "sleeps_5xx (snd (fetch example_platform ?opts (StaticToken ''t'') Json None ?script))
     = [100, 100]"
    using conjunct2 [OF conjunct2 [OF main]] by (simp add: numeral_2_eq_2)
  have a4: "answers_5xx (answer 503 None None)"
    "answers_5xx (answer 503 None (Some ''Service Unavailable''))"
    by (simp_all add: answers_5xx_def answer_def)
  show ?thesis
    using h0 h1 hA a4 r n s by simp
qed

text \<open>
  C2. A call makes at most one call of \<^verbatim>\<open>refreshToken\<close>, whatever the token source,
  the caller's headers and the answers of the transport are and however many
  requests it sends. In particular, with a provider object whose \<^verbatim>\<open>getToken\<close>
  returns \<open>t\<close> and whose \<^verbatim>\<open>refreshToken\<close> resolves to \<open>t'\<close>, and a transport that
  answers 401 to every attempt, the call makes two requests and one refresh and
  fails with a SpotifyError of status 401; the answers after the second (\<open>rest\<close>)
  are never asked for, so the call ends. For this second part the caller's
  headers and the Authorization headers for \<open>t\<close> and for \<open>t'\<close> are accepted by the
  \<^verbatim>\<open>Headers\<close> object, so that both requests are sent.
\<close>

theorem C2_single_refresh:
  "refresh_calls (snd (fetch pf opts a rt h script)) \<le> 1
   \<and> (getToken p = Some t \<and> refreshToken p = Some (Resolved t')
        \<and> status r1 = 401 \<and> status r2 = 401
        \<and> merged_headers h = Some hs
        \<and> Headers_set hs ''Authorization'' (''Bearer '' @ t) = Some H
        \<and> Headers_set H ''Authorization'' (''Bearer '' @ t') = Some H' \<longrightarrow>
        (let always_401 = Exchange (Responds r1) None # Exchange (Responds r2) None # rest
         in fst (fetch pf opts (ProviderObject p) rt h always_401)
              = Some (Inl (SpotifyError (fst (error_message pf r2)) 401))
          \<and> refresh_calls (snd (fetch pf opts (ProviderObject p) rt h always_401)) = 1
          \<and> attempts (snd (fetch pf opts (ProviderObject p) rt h always_401)) = 2))"
proof (intro conjI impI)
  show "refresh_calls (snd (fetch pf opts a rt h script)) \<le> 1"
    by (rule fetch_refresh_calls)
next
  assume "getToken p = Some t \<and> refreshToken p = Some (Resolved t')
        \<and> status r1 = 401 \<and> status r2 = 401
        \<and> merged_headers h = Some hs
        \<and> Headers_set hs ''Authorization'' (''Bearer '' @ t) = Some H
        \<and> Headers_set H ''Authorization'' (''Bearer '' @ t') = Some H'"
  then have h: "merged_headers h = Some hs" "getToken p = Some t"
    "Headers_set hs ''Authorization'' (''Bearer '' @ t) = Some H"
    "refreshToken p = Some (Resolved t')" "status r1 = 401"
    "Headers_set H ''Authorization'' (''Bearer '' @ t') = Some H'" "status r2 = 401"
    by simp_all
  show "let always_401 = Exchange (Responds r1) None # Exchange (Responds r2) None # rest
         in fst (fetch pf opts (ProviderObject p) rt h always_401)
              = Some (Inl (SpotifyError (fst (error_message pf r2)) 401))
          \<and> refresh_calls (snd (fetch pf opts (ProviderObject p) rt h always_401)) = 1
          \<and> attempts (snd (fetch pf opts (ProviderObject p) rt h always_401)) = 2"
    by (simp add: Let_def fetch_401_twice [OF h] attempts_def requests_append
        refresh_calls_append requests_error_message refresh_calls_error_message)
qed

theorem C2_single_refresh_witness:
  "getToken old_provider = Some ''old'' \<and> refreshToken old_provider = Some (Resolved ''fresh'')
   \<and> merged_headers None = Some [(''content-type'', ''application/json''), (''accept'', ''application/json'')]
   \<and> Headers_set [(''content-type'', ''application/json''), (''accept'', ''application/json'')] ''Authorization'' (''Bearer '' @ ''old'')
       = Some [(''content-type'', ''application/json''), (''accept'', ''application/json''), (''authorization'', ''Bearer old'')]
   \<and> Headers_set [(''content-type'', ''application/json''), (''accept'', ''application/json''), (''authorization'', ''Bearer old'')] ''Authorization'' (''Bearer '' @ ''fresh'')
       = Some [(''content-type'', ''application/json''), (''accept'', ''application/json''), (''authorization'', ''Bearer fresh'')]
   \<and> fst (fetch example_platform no_retries (ProviderObject old_provider) Void None
        [answer 401 None None, answer 401 None None, answer 401 None None])
     = Some (Inl (SpotifyError (Val (JStr ''null'')) 401))
   \<and> refresh_calls (snd (fetch example_platform no_retries (ProviderObject old_provider) Void None
        [answer 401 None None, answer 401 None None, answer 401 None None])) = 1
   \<and> attempts (snd (fetch example_platform no_retries (ProviderObject old_provider) Void None
        [answer 401 None None, answer 401 None None, answer 401 None None])) = 2"
proof -
  let ?r = "\<lparr>status = 401, retry_after = None, body = None\<rparr>"
  have g: "getToken old_provider = Some ''old''" "refreshToken old_provider = Some (Resolved ''fresh'')"
    by (simp_all add: old_provider_def)
  have hd: "merged_headers None = Some [(''content-type'', ''application/json''), (''accept'', ''application/json'')]"
    "Headers_set [(''content-type'', ''application/json''), (''accept'', ''application/json'')] ''Authorization'' (''Bearer '' @ ''old'')
       = Some [(''content-type'', ''application/json''), (''accept'', ''application/json''), (''authorization'', ''Bearer old'')]"
    "Headers_set [(''content-type'', ''application/json''), (''accept'', ''application/json''), (''authorization'', ''Bearer old'')] ''Authorization'' (''Bearer '' @ ''fresh'')
       = Some [(''content-type'', ''application/json''), (''accept'', ''application/json''), (''authorization'', ''Bearer fresh'')]"
    by (simp_all add: merged_headers_None Authorization_examples)
  have m: "fst (error_message example_platform ?r) = Val (JStr ''null'')"
    by (simp add: error_message_def)
  from C2_single_refresh [where p = old_provider and t = "''old''" and t' = "''fresh''"
      and ?r1.0 = ?r and ?r2.0 = ?r and rest = "[answer 401 None None]"
      and pf = example_platform and opts = no_retries and rt = Void and h = None
      and hs = "[(''content-type'', ''application/json''), (''accept'', ''application/json'')]"
      and H = "[(''content-type'', ''application/json''), (''accept'', ''application/json''), (''authorization'', ''Bearer old'')]"
      and H' = "[(''content-type'', ''application/json''), (''accept'', ''application/json''), (''authorization'', ''Bearer fresh'')]"
      and a = "StaticToken []" and script = "[]"]
  show ?thesis
    using g hd by (simp add: Let_def m answer_def)
qed

text \<open>
  C3, as stated: the token is resolved from the token source before every
  attempt, so that a token swapped between attempts is picked up. It fails: the
  client retries once on a server error, the token source is replaced while the
  first request is in flight by one whose current token is \<open>new\<close>, and the second
  request still carries the token \<open>old\<close> that was resolved when the call started.
\<close>

theorem C3_counterexample:
  "getToken new_provider = Some ''new''
   \<and> map (\<lambda>hs. Headers_get hs ''Authorization'')
       (requests (snd (fetch example_platform
          \<lparr>retryTimesOn5xx = 1, retryDelayOn5xx = 0, retryOnRateLimit = False\<rparr>
          (ProviderObject old_provider) Void None
          [Exchange (Responds \<lparr>status = 503, retry_after = None, body = None\<rparr>)
             (Some (ProviderObject new_provider)),
           answer 200 None None])))
     = [Some ''Bearer old'', Some ''Bearer old'']"
  by code_simp

text \<open>
  C3, amended. The token is resolved from the token source once, when the call
  starts and after the headers have been merged: for a string by no call of
  \<^verbatim>\<open>getToken\<close> at all, for a provider object by one call of \<^verbatim>\<open>getToken\<close>, which is
  the first effect of the call. After that (\<open>bearer_follows\<close>) the token source is
  not asked again; every request carries as its Authorization header the text
  \<^verbatim>\<open>Bearer\<close>, a space and the token in hand, as the \<^verbatim>\<open>Headers\<close> object stores it,
  that is with leading and trailing whitespace stripped (so \<^verbatim>\<open>Bearer\<close> alone for
  the empty token); and the token in hand changes only to the one that the
  refresh of this call resolved to. So a token that is swapped or changes in
  the token source between attempts reaches a later attempt only through that
  refresh.
\<close>

theorem C3_token_resolved_once:
  "bearer_follows s (snd (fetch pf opts (StaticToken s) rt h script))
   \<and> (getToken p = Some t \<and> merged_headers h \<noteq> None \<longrightarrow>
        (\<exists>tr. snd (fetch pf opts (ProviderObject p) rt h script) = Call_getToken # tr
              \<and> bearer_follows t tr))"
proof (intro conjI impI)
  show "bearer_follows s (snd (fetch pf opts (StaticToken s) rt h script))"
  proof (cases "merged_headers h")
    case None
    then show ?thesis by (simp add: fetch_bad_headers)
  next
    case (Some hs)
    have r: "resolve_accessToken (StaticToken s) = Inr (s, [])"
      by (simp add: resolve_accessToken_def)
    from fetch_trace [OF Some r, of pf opts rt script] obtain tr where
      "snd (fetch pf opts (StaticToken s) rt h script) = [] @ tr \<and> bearer_follows s tr" ..
    then show ?thesis by simp
  qed
next
  assume a: "getToken p = Some t \<and> merged_headers h \<noteq> None"
  then obtain hs where m: "merged_headers h = Some hs"
    by (cases "merged_headers h") simp_all
  have r: "resolve_accessToken (ProviderObject p) = Inr (t, [Call_getToken])"
    using a by (simp add: resolve_accessToken_def)
  from fetch_trace [OF m r, of pf opts rt script] obtain tr where
    "snd (fetch pf opts (ProviderObject p) rt h script) = [Call_getToken] @ tr \<and> bearer_follows t tr" ..
  then show "\<exists>tr. snd (fetch pf opts (ProviderObject p) rt h script) = Call_getToken # tr
              \<and> bearer_follows t tr"
    by (intro exI [of _ tr]) simp
qed

theorem C3_token_resolved_once_witness:
  "bearer_follows ''t'' (snd (fetch example_platform
        \<lparr>retryTimesOn5xx = 1, retryDelayOn5xx = 0, retryOnRateLimit = False\<rparr>
        (StaticToken ''t'') Void None
        [Exchange (Responds \<lparr>status = 503, retry_after = None, body = None\<rparr>)
           (Some (ProviderObject new_provider)),
         answer 200 None None]))
   \<and> getToken old_provider = Some ''old'' \<and> merged_headers None \<noteq> None
   \<and> (\<exists>tr. snd (fetch example_platform
               \<lparr>retryTimesOn5xx = 1, retryDelayOn5xx = 0, retryOnRateLimit = False\<rparr>
               (ProviderObject old_provider) Void None
               [Exchange (Responds \<lparr>status = 503, retry_after = None, body = None\<rparr>)
                  (Some (ProviderObject new_provider)),
                answer 200 None None]) = Call_getToken # tr
          \<and> bearer_follows ''old'' tr)
   \<and> bearer_follows [] (snd (fetch example_platform no_retries (StaticToken []) Void None
        [answer 200 None None]))
   \<and> map (\<lambda>hs. Headers_get hs ''Authorization'')
       (requests (snd (fetch example_platform no_retries (StaticToken []) Void None
          [answer 200 None None])))
     = [Some ''Bearer'']"
proof -
  have g: "getToken old_provider = Some ''old''"
    by (simp add: old_provider_def)
  have m: "merged_headers None \<noteq> None"
    by (simp add: merged_headers_None)
  have e: "map (\<lambda>hs. Headers_get hs ''Authorization'')
       (requests (snd (fetch example_platform no_retries (StaticToken []) Void None
          [answer 200 None None])))
     = [Some ''Bearer'']"
    by code_simp
  note empty = C3_token_resolved_once [where s = "[]" and pf = example_platform and rt = Void
      and h = None and opts = no_retries and script = "[answer 200 None None]"]
  from C3_token_resolved_once [where p = old_provider and t = "''old''" and s = "''t''"
      and pf = example_platform and rt = Void and h = None
      and opts = "\<lparr>retryTimesOn5xx = 1, retryDelayOn5xx = 0, retryOnRateLimit = False\<rparr>"
      and script = "[Exchange (Responds \<lparr>status = 503, retry_after = None, body = None\<rparr>)
                       (Some (ProviderObject new_provider)),
                     answer 200 None None]"]
  show ?thesis
    using g m e conjunct1 [OF empty] by simp
qed

text \<open>
  C10. With the rate-limit flag set, an answer 429 whose \<^verbatim>\<open>Retry-After\<close> header is
  present and converts to a number that is not truthy (NaN, as for \<^verbatim>\<open>abc\<close>, or
  zero) is not retried: at whatever point of a call it arrives (after the
  answers \<open>pre\<close> that left the call waiting), the call fails with a SpotifyError
  of status 429 and the message extracted from that answer, after exactly one
  more request. Here the request that this answer answers is sent: the call
  does not end with the TypeError that line 178 throws when the \<^verbatim>\<open>Headers\<close> object
  rejects the Authorization header for the token in hand.
\<close>

theorem C10_unparsable_retry_after:
  assumes "retryOnRateLimit opts" and "status res = 429"
    and "retry_after res = Some s" and "\<not> truthy (StringToNumber pf s)"
    and "fst (fetch pf opts a rt h pre) = None"
    and "fst (fetch pf opts a rt h (pre @ Exchange (Responds res) sw # rest)) \<noteq> Some (Inl TypeError)"
  shows "fst (fetch pf opts a rt h (pre @ Exchange (Responds res) sw # rest))
           = Some (Inl (SpotifyError (fst (error_message pf res)) 429))
       \<and> attempts (snd (fetch pf opts a rt h (pre @ Exchange (Responds res) sw # rest)))
           = attempts (snd (fetch pf opts a rt h pre)) + 1"
proof -
  let ?x = "Exchange (Responds res) sw"
  obtain st where pre: "fetch pf opts a rt h pre = (None, trace st)"
    and ext: "\<forall>ys. fetch pf opts a rt h (pre @ ys) = settle pf rt (call pf opts st ys)"
    by (rule fetch_continue [OF assms(5)])
  obtain H where w: "with_Authorization st = Some H"
  proof (cases "with_Authorization st")
    case None
    then have "call pf opts st (?x # rest) = (Some (Inl TypeError), st)"
      by (rule call_thrown)
    then have "fetch pf opts a rt h (pre @ ?x # rest) = (Some (Inl TypeError), trace st)"
      using ext by (simp add: settle_error)
    with assms(6) show ?thesis by simp
  next
    case (Some H)
    then show ?thesis by (rule that)
  qed
  have "call pf opts st (?x # rest) =
           (Some (Inl (SpotifyError (fst (error_message pf res)) (status res))),
            (after_request st H ?x)\<lparr>trace := trace (after_request st H ?x) @ snd (error_message pf res)\<rparr>)"
    using assms(1-4)
    by (intro call_terminal [OF w]) (simp_all add: ok_def startsWith_5_4xx)
  then have "fetch pf opts a rt h (pre @ ?x # rest) =
      (Some (Inl (SpotifyError (fst (error_message pf res)) (status res))),
       trace (after_request st H ?x) @ snd (error_message pf res))"
    using ext by (simp add: settle_error)
  then show ?thesis
    using assms(2)
    by (simp add: pre after_request_simps attempts_def requests_append requests_error_message)
qed

theorem C10_unparsable_retry_after_witness:
  "retryOnRateLimit \<lparr>retryTimesOn5xx = 3, retryDelayOn5xx = 0, retryOnRateLimit = True\<rparr>
   \<and> \<not> truthy (StringToNumber example_platform ''abc'')
   \<and> fst (fetch example_platform \<lparr>retryTimesOn5xx = 3, retryDelayOn5xx = 0, retryOnRateLimit = True\<rparr>
        (StaticToken ''t'') Json None []) = None
   \<and> fst (fetch example_platform \<lparr>retryTimesOn5xx = 3, retryDelayOn5xx = 0, retryOnRateLimit = True\<rparr>
        (StaticToken ''t'') Json None
        [answer 429 (Some ''abc'') (Some ''slow down''), answer 200 None None])
     \<noteq> Some (Inl TypeError)
   \<and> fst (fetch example_platform \<lparr>retryTimesOn5xx = 3, retryDelayOn5xx = 0, retryOnRateLimit = True\<rparr>
        (StaticToken ''t'') Json None
        [answer 429 (Some ''abc'') (Some ''slow down''), answer 200 None None])
     = Some (Inl (SpotifyError (Val (JStr ''slow down'')) 429))
   \<and> attempts (snd (fetch example_platform
        \<lparr>retryTimesOn5xx = 3, retryDelayOn5xx = 0, retryOnRateLimit = True\<rparr>
        (StaticToken ''t'') Json None
        [answer 429 (Some ''abc'') (Some ''slow down''), answer 200 None None])) = 1"
proof -
  let ?opts = "\<lparr>retryTimesOn5xx = 3, retryDelayOn5xx = 0, retryOnRateLimit = True\<rparr>"
  let ?res = "\<lparr>status = 429, retry_after = Some ''abc'', body = Some ''slow down''\<rparr>"
  let ?pre = "[] :: exchange list"
  have h1: "retryOnRateLimit ?opts" by simp
  have h2: "status ?res = 429" by simp
  have h3: "retry_after ?res = Some ''abc''" by simp
  have h4: "\<not> truthy (StringToNumber example_platform ''abc'')"
    by (simp add: example_platform_def)
  have r: "resolve_accessToken (StaticToken ''t'') = Inr (''t'', [])"
    by (simp add: resolve_accessToken_def)
  have f0: "fetch example_platform ?opts (StaticToken ''t'') Json None ?pre = (None, [])"
    by (simp add: fetch_settle [OF merged_headers_None r] settle_pending initial_closure_simps)
  then have h5: "fst (fetch example_platform ?opts (StaticToken ''t'') Json None ?pre) = None"
    by simp
  have h6: "fst (fetch example_platform ?opts (StaticToken ''t'') Json None
        (?pre @ Exchange (Responds ?res) None # [answer 200 None None])) \<noteq> Some (Inl TypeError)"
    by code_simp
  have m: "fst (error_message example_platform ?res) = Val (JStr ''slow down'')"
    by (simp add: error_message_def example_platform_def)
  have z: "attempts (snd (fetch example_platform ?opts (StaticToken ''t'') Json None ?pre)) = 0"
    by (simp add: f0 attempts_def)
  note main = C10_unparsable_retry_after [OF h1 h2 h3 h4 h5 h6]
  have n: "fst (fetch example_platform ?opts (StaticToken ''t'') Json None
        [answer 429 (Some ''abc'') (Some ''slow down''), answer 200 None None])
     \<noteq> Some (Inl TypeError)"
    using h6 by (simp add: answer_def)
  have a: "fst (fetch example_platform ?opts (StaticToken ''t'') Json None
        [answer 429 (Some ''abc'') (Some ''slow down''), answer 200 None None])
     = Some (Inl (SpotifyError (Val (JStr ''slow down'')) 429))"
    using conjunct1 [OF main] by (simp add: m answer_def)
  have b: "attempts (snd (fetch example_platform ?opts (StaticToken ''t'') Json None
        [answer 429 (Some ''abc'') (Some ''slow down''), answer 200 None None])) = 1"
    using conjunct2 [OF main] by (simp add: z answer_def)
  show ?thesis
    using h1 h4 h5 n a b by simp
qed

text \<open>
  C6. With the rate-limit flag set and an answer of status 429, for a closure
  whose Authorization header the \<^verbatim>\<open>Headers\<close> object accepts (\<open>H\<close> is the list the
  request is sent with): when the number read from \<^verbatim>\<open>Retry-After\<close> is truthy
  (present and not zero), the closure sleeps for that many seconds and runs
  again, and it does so for any number \<open>k + 1\<close> of such answers in a row; the
  variables afterwards differ from those before only in the header list and the
  trace, so neither the retry budget for server errors nor the refresh flag is
  touched. Seen from the call: after any number \<open>k\<close> of such answers, a
  successful answer is delivered, after \<open>k\<close> sleeps. When the header is absent or
  the number is zero, the closure does not run again and throws the
  SpotifyError of status 429.
\<close>

theorem C6_rate_limit_wait:
  assumes "retryOnRateLimit opts" and "status res = 429"
    and "with_Authorization st = Some H"
  shows "(truthy (Number pf (retry_after res)) \<longrightarrow>
            call pf opts st (replicate (Suc k) (Exchange (Responds res) None) @ rest) =
              call pf opts
                (st\<lparr>req_headers := H,
                    trace := trace st
                      @ concat (replicate (Suc k)
                          [Fetched H (Responds res),
                           Sleep_RetryAfter (Number pf (retry_after res))])\<rparr>) rest
            \<and> (merged_headers h = Some hs \<and> resolve_accessToken a = Inr (t, tr0)
                 \<and> Headers_set hs ''Authorization'' (''Bearer '' @ t) = Some H0 \<and> ok res' \<longrightarrow>
                 fetch pf opts a rt h
                   (replicate k (Exchange (Responds res) None) @ [Exchange (Responds res') sw]) =
                 (Some (fst (deliver pf rt res')),
                  tr0
                  @ concat (replicate k
                      [Fetched H0 (Responds res),
                       Sleep_RetryAfter (Number pf (retry_after res))])
                  @ [Fetched H0 (Responds res')]
                  @ snd (deliver pf rt res'))))
       \<and> (retry_after res = None \<or> Number pf (retry_after res) = Num 0 \<longrightarrow>
            call pf opts st (Exchange (Responds res) sw # rest) =
              (Some (Inl (SpotifyError (fst (error_message pf res)) 429)),
               (after_request st H (Exchange (Responds res) sw))
                 \<lparr>trace := trace (after_request st H (Exchange (Responds res) sw))
                             @ snd (error_message pf res)\<rparr>))"
proof (intro conjI impI)
  assume w: "truthy (Number pf (retry_after res))"
  show "call pf opts st (replicate (Suc k) (Exchange (Responds res) None) @ rest) =
              call pf opts
                (st\<lparr>req_headers := H,
                    trace := trace st
                      @ concat (replicate (Suc k)
                          [Fetched H (Responds res),
                           Sleep_RetryAfter (Number pf (retry_after res))])\<rparr>) rest"
    by (rule call_waits [OF assms(3) assms(1,2) w])
next
  assume w: "truthy (Number pf (retry_after res))"
    and r: "merged_headers h = Some hs \<and> resolve_accessToken a = Inr (t, tr0)
                 \<and> Headers_set hs ''Authorization'' (''Bearer '' @ t) = Some H0 \<and> ok res'"
  from r have r0: "merged_headers h = Some hs" and r1: "resolve_accessToken a = Inr (t, tr0)"
    and r2: "Headers_set hs ''Authorization'' (''Bearer '' @ t) = Some H0" and r3: "ok res'"
    by simp_all
  have w0: "with_Authorization (initial_closure opts a hs t tr0) = Some H0"
    using r2 by (simp add: initial_closure_simps)
  show "fetch pf opts a rt h
          (replicate k (Exchange (Responds res) None) @ [Exchange (Responds res') sw]) =
        (Some (fst (deliver pf rt res')),
         tr0
         @ concat (replicate k
             [Fetched H0 (Responds res),
              Sleep_RetryAfter (Number pf (retry_after res))])
         @ [Fetched H0 (Responds res')]
         @ snd (deliver pf rt res'))"
    by (simp add: fetch_settle [OF r0 r1] call_wait_then_ok [OF w0 assms(1,2) w r3] settle_response
        initial_closure_simps)
next
  assume z: "retry_after res = None \<or> Number pf (retry_after res) = Num 0"
  then have nt: "\<not> truthy (Number pf (retry_after res))"
    by auto
  have o: "outcome (Exchange (Responds res) sw) = Responds res" by simp
  have "call pf opts st (Exchange (Responds res) sw # rest) =
          (Some (Inl (SpotifyError (fst (error_message pf res)) (status res))),
           (after_request st H (Exchange (Responds res) sw))
             \<lparr>trace := trace (after_request st H (Exchange (Responds res) sw))
                         @ snd (error_message pf res)\<rparr>)"
    using assms(2) nt
    by (intro call_terminal [OF assms(3) o]) (simp_all add: ok_def startsWith_5_4xx)
  then show "call pf opts st (Exchange (Responds res) sw # rest) =
              (Some (Inl (SpotifyError (fst (error_message pf res)) 429)),
               (after_request st H (Exchange (Responds res) sw))
                 \<lparr>trace := trace (after_request st H (Exchange (Responds res) sw))
                             @ snd (error_message pf res)\<rparr>)"
    using assms(2) by simp
qed

theorem C6_rate_limit_wait_witness:
  "retryOnRateLimit \<lparr>retryTimesOn5xx = 0, retryDelayOn5xx = 0, retryOnRateLimit = True\<rparr>
   \<and> with_Authorization
        (initial_closure \<lparr>retryTimesOn5xx = 0, retryDelayOn5xx = 0, retryOnRateLimit = True\<rparr>
           (StaticToken ''t'') [(''content-type'', ''application/json''), (''accept'', ''application/json'')] ''t'' [])
       = Some [(''content-type'', ''application/json''), (''accept'', ''application/json''), (''authorization'', ''Bearer t'')]
   \<and> truthy (Number example_platform (Some ''2''))
   \<and> merged_headers None = Some [(''content-type'', ''application/json''), (''accept'', ''application/json'')]
   \<and> resolve_accessToken (StaticToken ''t'') = Inr (''t'', [])
   \<and> ok \<lparr>status = 200, retry_after = None, body = None\<rparr>
   \<and> fetch example_platform \<lparr>retryTimesOn5xx = 0, retryDelayOn5xx = 0, retryOnRateLimit = True\<rparr>
        (StaticToken ''t'') Void None
        [answer 429 (Some ''2'') None, answer 200 None None]
     = (Some (Inr None),
        [Fetched [(''content-type'', ''application/json''), (''accept'', ''application/json''), (''authorization'', ''Bearer t'')]
           (Responds \<lparr>status = 429, retry_after = Some ''2'', body = None\<rparr>),
         Sleep_RetryAfter (Num 2),
         Fetched [(''content-type'', ''application/json''), (''accept'', ''application/json''), (''authorization'', ''Bearer t'')]
           (Responds \<lparr>status = 200, retry_after = None, body = None\<rparr>)])
   \<and> fst (call example_platform \<lparr>retryTimesOn5xx = 0, retryDelayOn5xx = 0, retryOnRateLimit = True\<rparr>
        (initial_closure \<lparr>retryTimesOn5xx = 0, retryDelayOn5xx = 0, retryOnRateLimit = True\<rparr>
           (StaticToken ''t'') [(''content-type'', ''application/json''), (''accept'', ''application/json'')] ''t'' [])
        [answer 429 None None, answer 200 None None])
     = Some (Inl (SpotifyError (Val (JStr ''null'')) 429))"
proof -
  let ?opts = "\<lparr>retryTimesOn5xx = 0, retryDelayOn5xx = 0, retryOnRateLimit = True\<rparr>"
  let ?limited = "\<lparr>status = 429, retry_after = Some ''2'', body = None\<rparr>"
  let ?bare = "\<lparr>status = 429, retry_after = None, body = None\<rparr>"
  let ?fine = "\<lparr>status = 200, retry_after = None, body = None\<rparr>"
  let ?st = "initial_closure ?opts (StaticToken ''t'') [(''content-type'', ''application/json''), (''accept'', ''application/json'')] ''t'' []"
  have h1: "retryOnRateLimit ?opts" by simp
  have h2: "status ?limited = 429" "status ?bare = 429" by simp_all
  have hA: "Headers_set [(''content-type'', ''application/json''), (''accept'', ''application/json'')] ''Authorization'' (''Bearer '' @ ''t'')
       = Some [(''content-type'', ''application/json''), (''accept'', ''application/json''), (''authorization'', ''Bearer t'')]"
    by (simp add: Authorization_examples)
  have h3: "with_Authorization ?st = Some [(''content-type'', ''application/json''), (''accept'', ''application/json''), (''authorization'', ''Bearer t'')]"
    using hA by (simp add: initial_closure_simps)
  have n: "Number example_platform (retry_after ?limited) = Num 2"
    by (simp add: example_platform_def)
  then have t: "truthy (Number example_platform (Some ''2''))" by simp
  have r: "resolve_accessToken (StaticToken ''t'') = Inr (''t'', [])"
    by (simp add: resolve_accessToken_def)
  have k: "ok ?fine" by (simp add: ok_def)
  have d: "deliver example_platform Void ?fine = (Inr None, [])"
    by (simp add: deliver_def)
  have m: "fst (error_message example_platform ?bare) = Val (JStr ''null'')"
    by (simp add: error_message_def)
  note waits = C6_rate_limit_wait [OF h1 h2(1) h3, where pf = example_platform and k = 1
      and a = "StaticToken ''t''" and t = "''t''" and ?tr0.0 = "[]" and res' = ?fine
      and rt = Void and h = None and sw = None
      and hs = "[(''content-type'', ''application/json''), (''accept'', ''application/json'')]"
      and ?H0.0 = "[(''content-type'', ''application/json''), (''accept'', ''application/json''), (''authorization'', ''Bearer t'')]"]
  note falls = C6_rate_limit_wait [OF h1 h2(2) h3, where pf = example_platform and sw = None
      and rest = "[answer 200 None None]"]
  have a: "fetch example_platform ?opts (StaticToken ''t'') Void None
        [answer 429 (Some ''2'') None, answer 200 None None]
     = (Some (Inr None),
        [Fetched [(''content-type'', ''application/json''), (''accept'', ''application/json''), (''authorization'', ''Bearer t'')] (Responds ?limited),
         Sleep_RetryAfter (Num 2),
         Fetched [(''content-type'', ''application/json''), (''accept'', ''application/json''), (''authorization'', ''Bearer t'')] (Responds ?fine)])"
    using conjunct1 [OF waits] n r k hA merged_headers_None by (simp add: d answer_def)
  have b: "fst (call example_platform ?opts ?st [answer 429 None None, answer 200 None None])
     = Some (Inl (SpotifyError (Val (JStr ''null'')) 429))"
    using conjunct2 [OF falls] by (simp add: m answer_def)
  show ?thesis
    using h1 h3 t r k a b merged_headers_None by simp
qed

text \<open>
  C8. The claim: a call that reaches an answer with a status below 400, with the
  response type \<^verbatim>\<open>json\<close>, returns the parsed body, or fails with the plain error
  when there is no body; and the comment on \<^verbatim>\<open>SpotifyError\<close> (lines 73 to 75) says
  that it is thrown for a response that is not ok, \<^verbatim>\<open>status >= 400\<close>. The code
  tests \<^verbatim>\<open>res.ok\<close> (line 186), which holds from 200 to 299 only: for the status
  304 without a body, and for the status 300 with a JSON body, both below 400,
  the call throws a SpotifyError that carries that status, and the body of the
  second is not returned but becomes the message.
\<close>

theorem C8_status_below_400_rejected:
  "fetch example_platform no_retries (StaticToken ''t'') Json None [answer 304 None None]
     = (Some (Inl (SpotifyError (Val (JStr ''null'')) 304)),
        [Fetched [(''content-type'', ''application/json''), (''accept'', ''application/json''), (''authorization'', ''Bearer t'')]
           (Responds \<lparr>status = 304, retry_after = None, body = None\<rparr>)])
   \<and> fetch example_platform no_retries (StaticToken ''t'') Json None
        [answer 300 None (Some ''{\"id\":7}'')]
     = (Some (Inl (SpotifyError (Val (JStr ''{\"id\":7}'')) 300)),
        [Fetched [(''content-type'', ''application/json''), (''accept'', ''application/json''), (''authorization'', ''Bearer t'')]
           (Responds \<lparr>status = 300, retry_after = None, body = Some ''{\"id\":7}''\<rparr>),
         Read_text])"
  by code_simp

text \<open>
  C1, as stated: an object that conforms to the interface \<^verbatim>\<open>IAuthProvider\<close> of the
  repository supplies what the executor calls, so that a request with it
  resolves a token without error. It fails for the interface that the auth
  module declares, whose members are \<^verbatim>\<open>getAccessToken\<close> and \<^verbatim>\<open>refresh\<close>: with an
  object that has just these, the call of \<^verbatim>\<open>getToken\<close> throws a TypeError before
  any request is sent.
\<close>

theorem C1_counterexample:
  "implements_IAuthProvider auth_module_provider
   \<and> fetch example_platform no_retries (ProviderObject auth_module_provider) Json None
        [answer 200 None (Some ''{\"id\":7}'')]
     = (Some (Inl TypeError), [])"
  by (simp add: implements_IAuthProvider_def auth_module_provider_def fetch_def
      resolve_accessToken_def merged_headers_None)

text \<open>
  C1, amended. The executor uses a provider object through \<^verbatim>\<open>getToken\<close> and
  \<^verbatim>\<open>refreshToken\<close>. With an object that has these two members, the call starts by
  one call of \<^verbatim>\<open>getToken\<close>, without error, and sends its result as bearer token;
  on an answer 401 it calls \<^verbatim>\<open>refreshToken\<close> and, when that resolves, sends the
  next request with the new token. Here the caller's headers and the
  Authorization headers for the two tokens are accepted by the \<^verbatim>\<open>Headers\<close> object:
  \<open>hs\<close> is the merged list, \<open>H\<close> and \<open>H'\<close> are the lists that the first and the second
  request are sent with.
\<close>

theorem C1_token_capabilities:
  assumes "getToken p = Some t" and "refreshToken p = Some (Resolved t')"
    and "status res = 401" and "ok res'"
    and "merged_headers h = Some hs"
    and "Headers_set hs ''Authorization'' (''Bearer '' @ t) = Some H"
    and "Headers_set H ''Authorization'' (''Bearer '' @ t') = Some H'"
  shows "fetch pf opts (ProviderObject p) rt h [] = (None, [Call_getToken])
       \<and> fetch pf opts (ProviderObject p) rt h [Exchange (Responds res) None] =
           (None,
            [Call_getToken,
             Fetched H (Responds res),
             Call_refreshToken (Resolved t')])
       \<and> fetch pf opts (ProviderObject p) rt h
             [Exchange (Responds res) None, Exchange (Responds res') None] =
           (Some (fst (deliver pf rt res')),
            [Call_getToken,
             Fetched H (Responds res),
             Call_refreshToken (Resolved t'),
             Fetched H' (Responds res')]
            @ snd (deliver pf rt res'))"
proof -
  have r: "resolve_accessToken (ProviderObject p) = Inr (t, [Call_getToken])"
    using assms(1) by (simp add: resolve_accessToken_def)
  have 1: "fetch pf opts (ProviderObject p) rt h [] = (None, [Call_getToken])"
    by (simp add: fetch_settle [OF assms(5) r] settle_pending initial_closure_simps)
  have 2: "fetch pf opts (ProviderObject p) rt h [Exchange (Responds res) None] =
           (None,
            [Call_getToken,
             Fetched H (Responds res),
             Call_refreshToken (Resolved t')])"
    by (simp add: fetch_401_refresh [OF assms(5) assms(1) assms(6) assms(2) assms(3)]
        settle_pending)
  have 3: "fetch pf opts (ProviderObject p) rt h
             [Exchange (Responds res) None, Exchange (Responds res') None] =
           (Some (fst (deliver pf rt res')),
            [Call_getToken,
             Fetched H (Responds res),
             Call_refreshToken (Resolved t'),
             Fetched H' (Responds res')]
            @ snd (deliver pf rt res'))"
    by (rule fetch_401_then_ok [OF assms(5) assms(1) assms(6) assms(2) assms(3) assms(7) assms(4)])
  from 1 2 3 show ?thesis by simp
qed

theorem C1_token_capabilities_witness:
  "getToken old_provider = Some ''old'' \<and> refreshToken old_provider = Some (Resolved ''fresh'')
   \<and> ok \<lparr>status = 200, retry_after = None, body = None\<rparr>
   \<and> merged_headers None = Some [(''content-type'', ''application/json''), (''accept'', ''application/json'')]
   \<and> Headers_set [(''content-type'', ''application/json''), (''accept'', ''application/json'')] ''Authorization'' (''Bearer '' @ ''old'')
       = Some [(''content-type'', ''application/json''), (''accept'', ''application/json''), (''authorization'', ''Bearer old'')]
   \<and> Headers_set [(''content-type'', ''application/json''), (''accept'', ''application/json''), (''authorization'', ''Bearer old'')] ''Authorization'' (''Bearer '' @ ''fresh'')
       = Some [(''content-type'', ''application/json''), (''accept'', ''application/json''), (''authorization'', ''Bearer fresh'')]
   \<and> fetch example_platform no_retries (ProviderObject old_provider) Void None
        [answer 401 None None, answer 200 None None] =
      (Some (Inr None),
       [Call_getToken,
        Fetched [(''content-type'', ''application/json''), (''accept'', ''application/json''), (''authorization'', ''Bearer old'')]
          (Responds \<lparr>status = 401, retry_after = None, body = None\<rparr>),
        Call_refreshToken (Resolved ''fresh''),
        Fetched [(''content-type'', ''application/json''), (''accept'', ''application/json''), (''authorization'', ''Bearer fresh'')]
          (Responds \<lparr>status = 200, retry_after = None, body = None\<rparr>)])"
proof -
  let ?r1 = "\<lparr>status = 401, retry_after = None, body = None\<rparr>"
  let ?r2 = "\<lparr>status = 200, retry_after = None, body = None\<rparr>"
  have g: "getToken old_provider = Some ''old''" "refreshToken old_provider = Some (Resolved ''fresh'')"
    by (simp_all add: old_provider_def)
  have s: "status ?r1 = 401" by simp
  have k: "ok ?r2" by (simp add: ok_def)
  have hd: "merged_headers None = Some [(''content-type'', ''application/json''), (''accept'', ''application/json'')]"
    "Headers_set [(''content-type'', ''application/json''), (''accept'', ''application/json'')] ''Authorization'' (''Bearer '' @ ''old'')
       = Some [(''content-type'', ''application/json''), (''accept'', ''application/json''), (''authorization'', ''Bearer old'')]"
    "Headers_set [(''content-type'', ''application/json''), (''accept'', ''application/json''), (''authorization'', ''Bearer old'')] ''Authorization'' (''Bearer '' @ ''fresh'')
       = Some [(''content-type'', ''application/json''), (''accept'', ''application/json''), (''authorization'', ''Bearer fresh'')]"
    by (simp_all add: merged_headers_None Authorization_examples)
  have d: "deliver example_platform Void ?r2 = (Inr None, [])"
    by (simp add: deliver_def)
  from C1_token_capabilities [OF g s k hd, of example_platform no_retries Void]
  show ?thesis
    using g k hd by (simp add: d answer_def)
qed

text \<open>
  C4. The claim: a header that the caller supplies under the name of a base
  header replaces the base value. The code appends instead (line 166): for the
  caller's header \<^verbatim>\<open>Content-Type: text/plain\<close> the request carries both values
  under that name, the base value first.
\<close>

theorem C4_caller_header_appended:
  "map (\<lambda>hs. Headers_get hs ''Content-Type'')
     (requests (snd (fetch example_platform no_retries (StaticToken ''t'') Void
        (Some (HRecord [(''Content-Type'', ''text/plain'')])) [answer 200 None None])))
   = [Some ''application/json, text/plain'']"
  by code_simp

text \<open>
  C7. The claim: when the body does not parse as the error envelope, the message
  is the raw text of the body. The code falls back to the text only when parsing
  or reading \<^verbatim>\<open>.error.message\<close> throws: for the body
  \<^verbatim>\<open>{"error":"invalid_client"}\<close>, which is JSON but not the envelope, reading
  \<^verbatim>\<open>message\<close> of the string gives \<^verbatim>\<open>undefined\<close>, and that is what the SpotifyError
  is constructed with.
\<close>

theorem C7_message_undefined:
  "JSON_parse example_platform ''{\"error\":\"invalid_client\"}''
     = Some (JObj [(''error'', JStr ''invalid_client'')])
   \<and> fst (fetch example_platform no_retries (StaticToken ''t'') Json None
        [answer 400 None (Some ''{\"error\":\"invalid_client\"}'')])
     = Some (Inl (SpotifyError Undefined 400))"
  by code_simp

text \<open>
  C9. The claim: on every branch the body of the response is read or cancelled
  before the call goes on. On each of the three retry branches (the refresh
  after a 401, the wait after a 429, the retry after a server error) the closure
  runs again without touching the body of the response it holds, so one body
  stays open; a call that succeeds at once leaves none.
\<close>

theorem C9_retry_leaves_body_open:
  "open_bodies (snd (fetch example_platform no_retries (ProviderObject old_provider) Void None
      [answer 401 None (Some ''token expired''), answer 200 None None])) = 1
   \<and> open_bodies (snd (fetch example_platform
      \<lparr>retryTimesOn5xx = 0, retryDelayOn5xx = 0, retryOnRateLimit = True\<rparr>
      (StaticToken ''t'') Void None
      [answer 429 (Some ''2'') (Some ''slow down''), answer 200 None None])) = 1
   \<and> open_bodies (snd (fetch example_platform
      \<lparr>retryTimesOn5xx = 1, retryDelayOn5xx = 0, retryOnRateLimit = False\<rparr>
      (StaticToken ''t'') Void None
      [answer 503 None (Some ''Service Unavailable''), answer 200 None None])) = 1
   \<and> open_bodies (snd (fetch example_platform no_retries (StaticToken ''t'') Void None
      [answer 200 None (Some ''{\"id\":7}'')])) = 0"
  by code_simp

end
